theory Spec2Isabelle
  imports
    Complex_Main
    "HOL-Library.Char_ord"
    "HOL-Library.List_Lexorder"
    "HOL-Library.Multiset"
begin

section \<open>JavaScript values\<close>

text \<open>
  A JavaScript \<open>number\<close> is a finite value, \<open>NaN\<close> or one of the two infinities.
  Finite values are exact rationals here: the rounding of doubles, their overflow to an
  infinity and the sign of zero are not modelled.
\<close>

datatype jsnum = Fin rat | NaN | PosInf | NegInf

text \<open>\<open>Math.trunc\<close>: truncation toward zero.\<close>

definition truncRat :: "rat \<Rightarrow> int" where
  "truncRat r = (if 0 \<le> r then \<lfloor>r\<rfloor> else \<lceil>r\<rceil>)"

definition mathTrunc :: "jsnum \<Rightarrow> jsnum" where
  "mathTrunc x = (case x of Fin r \<Rightarrow> Fin (of_int (truncRat r)) | _ \<Rightarrow> x)"

text \<open>\<open>Math.max\<close> and \<open>Math.min\<close> of two numbers: \<open>NaN\<close> if either is \<open>NaN\<close>.\<close>

fun mathMax :: "jsnum \<Rightarrow> jsnum \<Rightarrow> jsnum" where
  "mathMax NaN _ = NaN"
| "mathMax _ NaN = NaN"
| "mathMax PosInf _ = PosInf"
| "mathMax _ PosInf = PosInf"
| "mathMax NegInf y = y"
| "mathMax x NegInf = x"
| "mathMax (Fin a) (Fin b) = Fin (max a b)"

fun mathMin :: "jsnum \<Rightarrow> jsnum \<Rightarrow> jsnum" where
  "mathMin NaN _ = NaN"
| "mathMin _ NaN = NaN"
| "mathMin NegInf _ = NegInf"
| "mathMin _ NegInf = NegInf"
| "mathMin PosInf y = y"
| "mathMin x PosInf = x"
| "mathMin (Fin a) (Fin b) = Fin (min a b)"

text \<open>The binary \<open>-\<close> on numbers.\<close>

fun jsSub :: "jsnum \<Rightarrow> jsnum \<Rightarrow> jsnum" where
  "jsSub NaN _ = NaN"
| "jsSub _ NaN = NaN"
| "jsSub (Fin a) (Fin b) = Fin (a - b)"
| "jsSub (Fin a) PosInf = NegInf"
| "jsSub (Fin a) NegInf = PosInf"
| "jsSub PosInf PosInf = NaN"
| "jsSub PosInf _ = PosInf"
| "jsSub NegInf NegInf = NaN"
| "jsSub NegInf _ = NegInf"

text \<open>The relational \<open>>=\<close> on numbers: false as soon as one side is \<open>NaN\<close>.\<close>

fun jsGe :: "jsnum \<Rightarrow> jsnum \<Rightarrow> bool" where
  "jsGe NaN _ = False"
| "jsGe _ NaN = False"
| "jsGe PosInf _ = True"
| "jsGe _ NegInf = True"
| "jsGe NegInf _ = False"
| "jsGe _ PosInf = False"
| "jsGe (Fin a) (Fin b) = (b \<le> a)"

text \<open>
  The values \<open>JSON.parse\<close> returns. A number is finite: JSON has no literal for
  \<open>NaN\<close> or an infinity. An object is its list of properties, each name once. A
  property that is not there reads as \<open>undefined\<close>, which is \<open>None\<close>; arrays,
  strings, numbers and booleans have none of the property names this program reads.
\<close>

datatype json =
    JNull
  | JBool bool
  | JNum rat
  | JStr string
  | JArr "json list"
  | JObj "(string \<times> json) list"

fun getProp :: "json \<Rightarrow> string \<Rightarrow> json option" where
  "getProp (JObj kvs) k = map_of kvs k"
| "getProp _ k = None"

text \<open>Truthiness, as \<open>!item\<close> and \<open>Boolean(x)\<close> read it.\<close>

fun truthy :: "json \<Rightarrow> bool" where
  "truthy JNull = False"
| "truthy (JBool b) = b"
| "truthy (JNum r) = (r \<noteq> 0)"
| "truthy (JStr s) = (s \<noteq> [])"
| "truthy (JArr _) = True"
| "truthy (JObj _) = True"

fun typeof :: "json option \<Rightarrow> string" where
  "typeof None = ''undefined''"
| "typeof (Some JNull) = ''object''"
| "typeof (Some (JBool _)) = ''boolean''"
| "typeof (Some (JNum _)) = ''number''"
| "typeof (Some (JStr _)) = ''string''"
| "typeof (Some (JArr _)) = ''object''"
| "typeof (Some (JObj _)) = ''object''"

text \<open>
  \<open>JSON.stringify\<close> writes a finite number as it is and \<open>NaN\<close> or an infinity as
  \<open>null\<close>.
\<close>

definition numToJson :: "jsnum \<Rightarrow> json" where
  "numToJson n = (case n of Fin r \<Rightarrow> JNum r | _ \<Rightarrow> JNull)"

section \<open>The key-value store\<close>

text \<open>
  \<open>AsyncStorage\<close> maps a key to a string, or to nothing. The program only ever
  hands a stored string to \<open>JSON.parse\<close> and only ever stores the output of
  \<open>JSON.stringify\<close>, so a stored string is represented by what \<open>JSON.parse\<close>
  makes of it: \<open>Malformed\<close> when \<open>JSON.parse\<close> throws (the empty string, which
  \<open>!raw\<close> rejects beforehand, is one of these), \<open>Parsed v\<close> when it returns
  \<open>v\<close>. The field \<open>writes\<close> counts the calls of \<open>setItem\<close> and
  \<open>removeItem\<close>. The calls of the store resolve: a rejection by the store is not
  modelled.
\<close>

datatype stored = Malformed | Parsed json

record AsyncStorage =
  items :: "string \<Rightarrow> stored option"
  writes :: nat

definition getItem :: "AsyncStorage \<Rightarrow> string \<Rightarrow> stored option" where
  "getItem st k = items st k"

definition setItem :: "AsyncStorage \<Rightarrow> string \<Rightarrow> stored \<Rightarrow> AsyncStorage" where
  "setItem st k v = st\<lparr>items := (items st)(k \<mapsto> v), writes := Suc (writes st)\<rparr>"

definition removeItem :: "AsyncStorage \<Rightarrow> string \<Rightarrow> AsyncStorage" where
  "removeItem st k = st\<lparr>items := (items st)(k := None), writes := Suc (writes st)\<rparr>"

section \<open>Dates\<close>

text \<open>
  A valid \<open>Date\<close> is its time value, the milliseconds since the epoch in UTC. The
  program builds dates from local fields and reads their local year, month and day, so
  the time zone of the device enters. A \<open>Zone\<close> is the two conversions of
  ECMAScript: \<open>toLocal\<close> is \<open>LocalTime\<close>, from a time value to the local time
  value, and \<open>toUTC\<close> is \<open>UTC\<close>, from a local time value to the time value. Where
  a transition skips a local time, \<open>toUTC\<close> gives an instant after the transition:
  on a day whose midnight is skipped, \<open>new Date(y, m, d)\<close> stands at 01:00. The day
  arithmetic follows the ECMAScript definitions (\<open>Day\<close>, \<open>TimeWithinDay\<close>,
  \<open>DayFromYear\<close>, \<open>YearFromTime\<close>, \<open>MonthFromTime\<close>, \<open>DateFromTime\<close>,
  \<open>MakeDay\<close>, \<open>MakeDate\<close>, \<open>TimeClip\<close>).
\<close>

datatype Date = InvalidDate | TimeValue int

record Zone =
  toLocal :: "int \<Rightarrow> int"
  toUTC :: "int \<Rightarrow> int"

definition msPerDay :: int where
  "msPerDay = 86400000"

definition dayOf :: "int \<Rightarrow> int" where
  "dayOf t = t div msPerDay"

definition timeWithinDay :: "int \<Rightarrow> int" where
  "timeWithinDay t = t mod msPerDay"

definition makeDate :: "int \<Rightarrow> int \<Rightarrow> int" where
  "makeDate d t = d * msPerDay + t"

definition dayFromYear :: "int \<Rightarrow> int" where
  "dayFromYear y =
     365 * (y - 1970) + (y - 1969) div 4 - (y - 1901) div 100 + (y - 1601) div 400"

definition inLeapYear :: "int \<Rightarrow> int" where
  "inLeapYear y =
     (if y mod 4 \<noteq> 0 then 0 else if y mod 100 \<noteq> 0 then 1 else if y mod 400 \<noteq> 0 then 0 else 1)"

text \<open>
  \<open>YearFromTime\<close>, the year whose first day is not after day \<open>n\<close> while the first
  day of the next year is: an estimate from the mean length of a year, corrected by one
  year where it is off.
\<close>

definition yearFromDay :: "int \<Rightarrow> int" where
  "yearFromDay n =
     (let y = 1970 + (400 * n) div 146097 in
      if n < dayFromYear y then y - 1
      else if dayFromYear (y + 1) \<le> n then y + 1
      else y)"

definition dayWithinYear :: "int \<Rightarrow> int" where
  "dayWithinYear n = n - dayFromYear (yearFromDay n)"

definition monthFromDay :: "int \<Rightarrow> int" where
  "monthFromDay n =
     (let d = dayWithinYear n; l = inLeapYear (yearFromDay n) in
      if d < 31 then 0
      else if d < 59 + l then 1
      else if d < 90 + l then 2
      else if d < 120 + l then 3
      else if d < 151 + l then 4
      else if d < 181 + l then 5
      else if d < 212 + l then 6
      else if d < 243 + l then 7
      else if d < 273 + l then 8
      else if d < 304 + l then 9
      else if d < 334 + l then 10
      else 11)"

text \<open>The number of days of the year \<open>y\<close> that lie before its month \<open>m\<close> (0 to 11).\<close>

definition daysBeforeMonth :: "int \<Rightarrow> int \<Rightarrow> int" where
  "daysBeforeMonth y m =
     (let l = inLeapYear y in
      if m = 0 then 0
      else if m = 1 then 31
      else if m = 2 then 59 + l
      else if m = 3 then 90 + l
      else if m = 4 then 120 + l
      else if m = 5 then 151 + l
      else if m = 6 then 181 + l
      else if m = 7 then 212 + l
      else if m = 8 then 243 + l
      else if m = 9 then 273 + l
      else if m = 10 then 304 + l
      else 334 + l)"

definition dateFromDay :: "int \<Rightarrow> int" where
  "dateFromDay n = dayWithinYear n - daysBeforeMonth (yearFromDay n) (monthFromDay n) + 1"

text \<open>
  \<open>MakeDay\<close>: no day when an argument is not finite; otherwise the arguments are
  truncated, months beyond the year carry into the year, and a day of the month beyond
  the month carries into the days.
\<close>

definition makeDay :: "jsnum \<Rightarrow> jsnum \<Rightarrow> jsnum \<Rightarrow> int option" where
  "makeDay year month date =
     (case (year, month, date) of
        (Fin yr, Fin mr, Fin dr) \<Rightarrow>
          (let y = truncRat yr; m = truncRat mr; dt = truncRat dr;
               ym = y + m div 12; mn = m mod 12
           in Some (dayFromYear ym + daysBeforeMonth ym mn + dt - 1))
      | _ \<Rightarrow> None)"

text \<open>\<open>TimeClip\<close>: a time more than 8.64e15 ms from the epoch is no date.\<close>

definition timeClip :: "int option \<Rightarrow> Date" where
  "timeClip t =
     (case t of
        None \<Rightarrow> InvalidDate
      | Some v \<Rightarrow> if \<bar>v\<bar> > 8640000000000000 then InvalidDate else TimeValue v)"

text \<open>
  \<open>new Date(year, month, date)\<close>: a year from 0 to 99 means 1900 + year; the date is
  the local midnight of the day that \<open>MakeDay\<close> gives.
\<close>

definition newDate :: "Zone \<Rightarrow> jsnum \<Rightarrow> jsnum \<Rightarrow> jsnum \<Rightarrow> Date" where
  "newDate z y m d =
     (let yr = (case y of
                  Fin r \<Rightarrow>
                    (let yi = truncRat r in
                     if 0 \<le> yi \<and> yi \<le> 99 then Fin (of_int (1900 + yi)) else y)
                | _ \<Rightarrow> y)
      in timeClip (map_option (\<lambda>n. toUTC z (makeDate n 0)) (makeDay yr m d)))"

text \<open>The getters read the local time; they return \<open>NaN\<close> on an invalid date.\<close>

definition getFullYear :: "Zone \<Rightarrow> Date \<Rightarrow> jsnum" where
  "getFullYear z t =
     (case t of
        InvalidDate \<Rightarrow> NaN
      | TimeValue v \<Rightarrow> Fin (of_int (yearFromDay (dayOf (toLocal z v)))))"

definition getMonth :: "Zone \<Rightarrow> Date \<Rightarrow> jsnum" where
  "getMonth z t =
     (case t of
        InvalidDate \<Rightarrow> NaN
      | TimeValue v \<Rightarrow> Fin (of_int (monthFromDay (dayOf (toLocal z v)))))"

definition getDate :: "Zone \<Rightarrow> Date \<Rightarrow> jsnum" where
  "getDate z t =
     (case t of
        InvalidDate \<Rightarrow> NaN
      | TimeValue v \<Rightarrow> Fin (of_int (dateFromDay (dayOf (toLocal z v)))))"

text \<open>
  \<open>setDate\<close>, returning the date the receiver becomes: the day of the month changes,
  the year, the month and the local time within the day stay.
\<close>

definition setDate :: "Zone \<Rightarrow> Date \<Rightarrow> jsnum \<Rightarrow> Date" where
  "setDate z t dt =
     (case t of
        InvalidDate \<Rightarrow> InvalidDate
      | TimeValue v \<Rightarrow>
          (let tl = toLocal z v;
               day = makeDay (Fin (of_int (yearFromDay (dayOf tl))))
                       (Fin (of_int (monthFromDay (dayOf tl)))) dt
           in timeClip (map_option (\<lambda>n. toUTC z (makeDate n (timeWithinDay tl))) day)))"

text \<open>\<open>a >= b\<close> on dates compares their time values; an invalid date has \<open>NaN\<close>.\<close>

definition dateGe :: "Date \<Rightarrow> Date \<Rightarrow> bool" where
  "dateGe a b =
     (case (a, b) of (TimeValue x, TimeValue y) \<Rightarrow> y \<le> x | _ \<Rightarrow> False)"

section \<open>Numbers and strings\<close>

text \<open>
  \<open>String(n)\<close> for the numbers the date getters return: an integer in decimal, or
  \<open>NaN\<close>. Nothing else is converted to a string by this program.
\<close>

definition digitChar :: "nat \<Rightarrow> char" where
  "digitChar d =
     (if d = 0 then CHR ''0'' else if d = 1 then CHR ''1'' else if d = 2 then CHR ''2''
      else if d = 3 then CHR ''3'' else if d = 4 then CHR ''4'' else if d = 5 then CHR ''5''
      else if d = 6 then CHR ''6'' else if d = 7 then CHR ''7'' else if d = 8 then CHR ''8''
      else CHR ''9'')"

fun showNat :: "nat \<Rightarrow> string" where
  "showNat n = (if n < 10 then [digitChar n] else showNat (n div 10) @ [digitChar (n mod 10)])"

declare showNat.simps [simp del]

definition showInt :: "int \<Rightarrow> string" where
  "showInt i = (if i < 0 then CHR ''-'' # showNat (nat (- i)) else showNat (nat i))"

definition numToString :: "jsnum \<Rightarrow> string" where
  "numToString x =
     (case x of
        Fin r \<Rightarrow> showInt (truncRat r)
      | NaN \<Rightarrow> ''NaN''
      | PosInf \<Rightarrow> ''Infinity''
      | NegInf \<Rightarrow> ''-Infinity'')"

definition padStart :: "string \<Rightarrow> nat \<Rightarrow> char \<Rightarrow> string" where
  "padStart s n c = replicate (n - length s) c @ s"

fun jsAdd1 :: "jsnum \<Rightarrow> jsnum" where
  "jsAdd1 (Fin r) = Fin (r + 1)"
| "jsAdd1 x = x"

section \<open>The check-in store\<close>

record DailyCheckin =
  dateKey :: string
  energy :: jsnum
  mood :: jsnum
  focus :: jsnum
  updatedAt :: jsnum

definition CHECKIN_STORAGE_KEY :: string where
  "CHECKIN_STORAGE_KEY = ''checkin:daily-v1''"

definition getLocalDateKey :: "Zone \<Rightarrow> Date \<Rightarrow> string" where
  "getLocalDateKey z date =
     (let year = getFullYear z date;
          month = padStart (numToString (jsAdd1 (getMonth z date))) 2 CHR ''0'';
          day = padStart (numToString (getDate z date)) 2 CHR ''0''
      in numToString year @ ''-'' @ month @ ''-'' @ day)"

text \<open>The type guard of \<open>loadAllCheckins\<close>.\<close>

definition isDailyCheckin :: "json \<Rightarrow> bool" where
  "isDailyCheckin item =
     (if \<not> truthy item \<or> typeof (Some item) \<noteq> ''object'' then False
      else typeof (getProp item ''dateKey'') = ''string'' \<and>
           typeof (getProp item ''energy'') = ''number'' \<and>
           typeof (getProp item ''mood'') = ''number'' \<and>
           typeof (getProp item ''focus'') = ''number'' \<and>
           typeof (getProp item ''updatedAt'') = ''number'')"

text \<open>
  An element that passed the guard, read as a \<open>DailyCheckin\<close>. Properties beyond the
  five of the type are not carried along.
\<close>

definition strProp :: "json \<Rightarrow> string \<Rightarrow> string" where
  "strProp item k = (case getProp item k of Some (JStr s) \<Rightarrow> s | _ \<Rightarrow> [])"

definition numProp :: "json \<Rightarrow> string \<Rightarrow> jsnum" where
  "numProp item k = (case getProp item k of Some (JNum r) \<Rightarrow> Fin r | _ \<Rightarrow> NaN)"

definition asDailyCheckin :: "json \<Rightarrow> DailyCheckin" where
  "asDailyCheckin item =
     \<lparr>dateKey = strProp item ''dateKey'',
      energy = numProp item ''energy'',
      mood = numProp item ''mood'',
      focus = numProp item ''focus'',
      updatedAt = numProp item ''updatedAt''\<rparr>"

text \<open>What \<open>JSON.parse (JSON.stringify c)\<close> is for a check-in \<open>c\<close>.\<close>

definition checkinToJson :: "DailyCheckin \<Rightarrow> json" where
  "checkinToJson c =
     JObj [(''dateKey'', JStr (dateKey c)),
           (''energy'', numToJson (energy c)),
           (''mood'', numToJson (mood c)),
           (''focus'', numToJson (focus c)),
           (''updatedAt'', numToJson (updatedAt c))]"

definition stringifyCheckins :: "DailyCheckin list \<Rightarrow> stored" where
  "stringifyCheckins cs = Parsed (JArr (map checkinToJson cs))"

text \<open>
  \<open>sort((a, b) => a.dateKey.localeCompare(b.dateKey))\<close>: a stable sort by
  \<open>dateKey\<close>. On the digits and hyphens of date keys \<open>localeCompare\<close> is the
  lexicographic order of the characters, which stands for it on all strings here.
\<close>

definition sortByDateKey :: "DailyCheckin list \<Rightarrow> DailyCheckin list" where
  "sortByDateKey cs = sort_key dateKey cs"

definition loadAllCheckins :: "AsyncStorage \<Rightarrow> DailyCheckin list" where
  "loadAllCheckins st =
     (case getItem st CHECKIN_STORAGE_KEY of
        None \<Rightarrow> []
      | Some Malformed \<Rightarrow> []
      | Some (Parsed parsed) \<Rightarrow>
          (case parsed of
             JArr elems \<Rightarrow> sortByDateKey (map asDailyCheckin (filter isDailyCheckin elems))
           | _ \<Rightarrow> []))"

definition loadCheckinForDate :: "AsyncStorage \<Rightarrow> string \<Rightarrow> DailyCheckin option" where
  "loadCheckinForDate st k = List.find (\<lambda>c. dateKey c = k) (loadAllCheckins st)"

definition saveAllCheckins :: "AsyncStorage \<Rightarrow> DailyCheckin list \<Rightarrow> AsyncStorage" where
  "saveAllCheckins st checkins =
     (let normalized = sortByDateKey checkins
      in setItem st CHECKIN_STORAGE_KEY (stringifyCheckins normalized))"

definition clearAllCheckins :: "AsyncStorage \<Rightarrow> AsyncStorage" where
  "clearAllCheckins st = removeItem st CHECKIN_STORAGE_KEY"

text \<open>\<open>findIndex\<close>: the index of the first element that satisfies \<open>P\<close>, or -1.\<close>

fun findIndex :: "('a \<Rightarrow> bool) \<Rightarrow> 'a list \<Rightarrow> int" where
  "findIndex P [] = - 1"
| "findIndex P (x # xs) =
     (if P x then 0 else (let i = findIndex P xs in if i < 0 then - 1 else i + 1))"

text \<open>
  The argument of \<open>upsertTodayCheckin\<close>. The device supplies its zone and two
  readings of its clock: \<open>now\<close>, the time value of \<open>new Date()\<close>, which is the
  default of \<open>values.date\<close>, and \<open>nowMs\<close>, the value of \<open>Date.now()\<close>.
\<close>

record CheckinValues =
  v_energy :: jsnum
  v_mood :: jsnum
  v_focus :: jsnum
  v_date :: "Date option"

definition upsertTodayCheckin ::
  "Zone \<Rightarrow> int \<Rightarrow> int \<Rightarrow> CheckinValues \<Rightarrow> AsyncStorage \<Rightarrow> DailyCheckin \<times> AsyncStorage" where
  "upsertTodayCheckin z now nowMs values st =
     (let dk = getLocalDateKey z (case v_date values of None \<Rightarrow> TimeValue now | Some d \<Rightarrow> d);
          stamp = Fin (of_int nowMs);
          loaded = loadAllCheckins st;
          next = \<lparr>dateKey = dk, energy = v_energy values, mood = v_mood values,
                  focus = v_focus values, updatedAt = stamp\<rparr>;
          existingIndex = findIndex (\<lambda>c. dateKey c = dk) loaded;
          written = (if 0 \<le> existingIndex then loaded[nat existingIndex := next]
                     else loaded @ [next])
      in (next, setItem st CHECKIN_STORAGE_KEY (stringifyCheckins written)))"

subsection \<open>Parsing a date key\<close>

text \<open>
  \<open>s.split('-')\<close>: the pieces of \<open>s\<close> between the hyphens, at least one piece.
\<close>

fun splitOn :: "char \<Rightarrow> string \<Rightarrow> string list" where
  "splitOn sep [] = [[]]"
| "splitOn sep (c # cs) =
     (if c = sep then [] # splitOn sep cs
      else (case splitOn sep cs of
              [] \<Rightarrow> [[c]]
            | w # ws \<Rightarrow> (c # w) # ws))"

text \<open>
  \<open>Number(s)\<close> on a string, after the grammar of \<open>StringNumericLiteral\<close>: white
  space around the literal is dropped, the empty string is 0, then come the binary, octal
  and hexadecimal integers, \<open>Infinity\<close>, and the decimal literals with a sign, a
  fraction and an exponent; every other string is \<open>NaN\<close>. Characters are code units
  below 256.
\<close>

definition isWhiteSpace :: "char \<Rightarrow> bool" where
  "isWhiteSpace c = (of_char c \<in> {9, 10, 11, 12, 13, 32, 160 :: nat})"

definition trim :: "string \<Rightarrow> string" where
  "trim s = rev (dropWhile isWhiteSpace (rev (dropWhile isWhiteSpace s)))"

definition isDigit :: "char \<Rightarrow> bool" where
  "isDigit c = (48 \<le> (of_char c :: nat) \<and> (of_char c :: nat) \<le> 57)"

text \<open>The value of a digit in a radix up to 16; 16 for a character that is no digit.\<close>

definition digitValue :: "char \<Rightarrow> nat" where
  "digitValue c =
     (let n = (of_char c :: nat) in
      if 48 \<le> n \<and> n \<le> 57 then n - 48
      else if 97 \<le> n \<and> n \<le> 102 then n - 87
      else if 65 \<le> n \<and> n \<le> 70 then n - 55
      else 16)"

definition digitsValue :: "nat \<Rightarrow> string \<Rightarrow> nat" where
  "digitsValue radix ds = foldl (\<lambda>a c. radix * a + digitValue c) 0 ds"

definition parseDigits :: "nat \<Rightarrow> string \<Rightarrow> nat option" where
  "parseDigits radix ds =
     (if ds \<noteq> [] \<and> list_all (\<lambda>c. digitValue c < radix) ds then Some (digitsValue radix ds)
      else None)"

definition parseNonDecimal :: "string \<Rightarrow> nat option" where
  "parseNonDecimal s =
     (case s of
        z # p # ds \<Rightarrow>
          (if z \<noteq> CHR ''0'' then None
           else if p = CHR ''x'' \<or> p = CHR ''X'' then parseDigits 16 ds
           else if p = CHR ''o'' \<or> p = CHR ''O'' then parseDigits 8 ds
           else if p = CHR ''b'' \<or> p = CHR ''B'' then parseDigits 2 ds
           else None)
      | _ \<Rightarrow> None)"

definition parseExponent :: "string \<Rightarrow> int option" where
  "parseExponent s =
     (case s of
        [] \<Rightarrow> None
      | c # cs \<Rightarrow>
          (if c = CHR ''+'' then map_option int (parseDigits 10 cs)
           else if c = CHR ''-'' then map_option (\<lambda>n. - int n) (parseDigits 10 cs)
           else map_option int (parseDigits 10 s)))"

definition scale10 :: "rat \<Rightarrow> int \<Rightarrow> rat" where
  "scale10 r e = (if 0 \<le> e then r * 10 ^ nat e else r / 10 ^ nat (- e))"

definition parseUnsignedDecimal :: "string \<Rightarrow> jsnum" where
  "parseUnsignedDecimal s =
     (if s = ''Infinity'' then PosInf
      else
        (let ip = takeWhile isDigit s;
             r1 = dropWhile isDigit s;
             fp = (case r1 of
                     [] \<Rightarrow> []
                   | c # t \<Rightarrow> if c = CHR ''.'' then takeWhile isDigit t else []);
             r2 = (case r1 of
                     [] \<Rightarrow> []
                   | c # t \<Rightarrow> if c = CHR ''.'' then dropWhile isDigit t else r1);
             mant = of_nat (digitsValue 10 ip) + of_nat (digitsValue 10 fp) / 10 ^ length fp
         in if ip = [] \<and> fp = [] then NaN
            else (case r2 of
                    [] \<Rightarrow> Fin mant
                  | e # t \<Rightarrow>
                      (if e = CHR ''e'' \<or> e = CHR ''E''
                       then (case parseExponent t of
                               None \<Rightarrow> NaN
                             | Some x \<Rightarrow> Fin (scale10 mant x))
                       else NaN))))"

fun jsNeg :: "jsnum \<Rightarrow> jsnum" where
  "jsNeg (Fin r) = Fin (- r)"
| "jsNeg NaN = NaN"
| "jsNeg PosInf = NegInf"
| "jsNeg NegInf = PosInf"

definition parseDecimal :: "string \<Rightarrow> jsnum" where
  "parseDecimal s =
     (case s of
        [] \<Rightarrow> NaN
      | c # t \<Rightarrow>
          (if c = CHR ''+'' then parseUnsignedDecimal t
           else if c = CHR ''-'' then jsNeg (parseUnsignedDecimal t)
           else parseUnsignedDecimal s))"

definition Number :: "string \<Rightarrow> jsnum" where
  "Number s =
     (let t = trim s in
      if t = [] then Fin 0
      else (case parseNonDecimal t of
              Some n \<Rightarrow> Fin (of_nat n)
            | None \<Rightarrow> parseDecimal t))"

text \<open>
  Reading an element of an array beyond its end gives \<open>undefined\<close> (\<open>None\<close>);
  \<open>x ?? v\<close> replaces \<open>undefined\<close> by \<open>v\<close>; a parameter of \<open>new Date\<close> that is
  \<open>undefined\<close> converts to \<open>NaN\<close>.
\<close>

definition nthOpt :: "'a list \<Rightarrow> nat \<Rightarrow> 'a option" where
  "nthOpt xs i = (if i < length xs then Some (xs ! i) else None)"

definition nullish :: "'a option \<Rightarrow> 'a \<Rightarrow> 'a" where
  "nullish x v = (case x of None \<Rightarrow> v | Some a \<Rightarrow> a)"

definition toNumber :: "jsnum option \<Rightarrow> jsnum" where
  "toNumber x = (case x of None \<Rightarrow> NaN | Some a \<Rightarrow> a)"

definition localDateFromDateKey :: "Zone \<Rightarrow> string \<Rightarrow> Date" where
  "localDateFromDateKey z k =
     (let parts = map Number (splitOn CHR ''-'' k);
          y = nthOpt parts 0;
          m = nthOpt parts 1;
          d = nthOpt parts 2
      in newDate z (toNumber y) (jsSub (nullish m (Fin 1)) (Fin 1)) (nullish d (Fin 1)))"

subsection \<open>Retention\<close>

text \<open>
  \<open>purgeCheckinsOlderThan\<close>: \<open>now\<close> is the time value of \<open>new Date()\<close>; the
  argument is \<open>None\<close> when the caller passes none, and then the default 90 applies.
  The result is the returned count and the store afterwards.
\<close>

definition purgeCutoff :: "Zone \<Rightarrow> int \<Rightarrow> jsnum \<Rightarrow> Date" where
  "purgeCutoff z now days =
     (let nowDate = TimeValue now;
          cutoff = newDate z (getFullYear z nowDate) (getMonth z nowDate) (getDate z nowDate)
      in setDate z cutoff (jsSub (getDate z cutoff) (jsSub (mathMax (Fin 1) days) (Fin 1))))"

definition purgeCheckinsOlderThan ::
  "Zone \<Rightarrow> int \<Rightarrow> jsnum option \<Rightarrow> AsyncStorage \<Rightarrow> nat \<times> AsyncStorage" where
  "purgeCheckinsOlderThan z now daysArg st =
     (let days = nullish daysArg (Fin 90);
          loaded = loadAllCheckins st
      in if length loaded = 0 then (0, st)
         else
           (let cutoff = purgeCutoff z now days;
                kept = filter (\<lambda>c. dateGe (localDateFromDateKey z (dateKey c)) cutoff) loaded
            in if length kept = length loaded then (0, st)
               else (length loaded - length kept, saveAllCheckins st kept)))"

section \<open>The reminder scheduler\<close>

record ReminderSettings =
  enabled :: bool
  hour :: jsnum
  minute :: jsnum
  notificationId :: "string option"

definition REMINDER_STORAGE_KEY :: string where
  "REMINDER_STORAGE_KEY = ''checkin:reminder-v1''"

definition REMINDER_KIND :: string where
  "REMINDER_KIND = ''checkin:daily-reminder-v1''"

definition LEGACY_TITLE :: string where
  "LEGACY_TITLE = ''Reminder''"

definition LEGACY_BODY :: string where
  "LEGACY_BODY = ''Time to add today's track.''"

definition clampInt :: "jsnum \<Rightarrow> jsnum \<Rightarrow> jsnum \<Rightarrow> jsnum" where
  "clampInt v lo hi = (let n = mathTrunc v in mathMin hi (mathMax lo n))"

definition defaultSettings :: ReminderSettings where
  "defaultSettings = \<lparr>enabled = False, hour = Fin 20, minute = Fin 0, notificationId = None\<rparr>"

text \<open>
  \<open>loadReminderSettings\<close>. Reading a property of \<open>null\<close> throws inside the
  \<open>try\<close>, so a stored \<open>null\<close> ends in the \<open>catch\<close> like a string that does
  not parse.
\<close>

definition loadReminderSettings :: "AsyncStorage \<Rightarrow> ReminderSettings" where
  "loadReminderSettings st =
     (case getItem st REMINDER_STORAGE_KEY of
        None \<Rightarrow> defaultSettings
      | Some Malformed \<Rightarrow> defaultSettings
      | Some (Parsed parsed) \<Rightarrow>
          (if parsed = JNull then defaultSettings
           else
             (let h = (if typeof (getProp parsed ''hour'') = ''number''
                       then clampInt (numProp parsed ''hour'') (Fin 0) (Fin 23) else Fin 20);
                  mi = (if typeof (getProp parsed ''minute'') = ''number''
                        then clampInt (numProp parsed ''minute'') (Fin 0) (Fin 59) else Fin 0);
                  en = (case getProp parsed ''enabled'' of None \<Rightarrow> False | Some v \<Rightarrow> truthy v);
                  nid = (if typeof (getProp parsed ''notificationId'') = ''string''
                         then Some (strProp parsed ''notificationId'') else None)
              in \<lparr>enabled = en, hour = h, minute = mi, notificationId = nid\<rparr>)))"

subsection \<open>The notification platform\<close>

text \<open>
  A scheduled request as the program reads it: its identifier, the title and the body of
  its content, the property \<open>kind\<close> of its data when that is a string, and its daily
  trigger (\<open>None\<close> for a trigger of another type).
\<close>

record DailyTrigger =
  triggerHour :: jsnum
  triggerMinute :: jsnum
  channelId :: "string option"

record NotificationRequest =
  identifierOf :: string
  title :: "string option"
  body :: "string option"
  kind :: "string option"
  trigger :: "DailyTrigger option"

text \<open>
  The platform: the operating system, the permission, the scheduled requests, the Android
  channels, the identifiers it hands out (\<open>idSupply\<close> numbered by \<open>issued\<close>), and
  the calls that reject (\<open>rejecting\<close>). A call that rejects changes nothing.
\<close>

datatype api =
    GetPermissions
  | GetAllScheduled
  | CancelScheduled string
  | CancelAllScheduled
  | SetChannel
  | Schedule

record Platform =
  android :: bool
  granted :: bool
  scheduled :: "NotificationRequest list"
  channels :: "string list"
  idSupply :: "nat \<Rightarrow> string"
  issued :: nat
  rejecting :: "api set"

datatype 'a promise = Rejected | Resolved 'a

definition getPermissionsAsync :: "Platform \<Rightarrow> bool promise" where
  "getPermissionsAsync p = (if GetPermissions \<in> rejecting p then Rejected else Resolved (granted p))"

definition getAllScheduledNotificationsAsync :: "Platform \<Rightarrow> NotificationRequest list promise" where
  "getAllScheduledNotificationsAsync p =
     (if GetAllScheduled \<in> rejecting p then Rejected else Resolved (scheduled p))"

definition cancelScheduledNotificationAsync :: "Platform \<Rightarrow> string \<Rightarrow> unit promise \<times> Platform" where
  "cancelScheduledNotificationAsync p i =
     (if CancelScheduled i \<in> rejecting p then (Rejected, p)
      else (Resolved (), p\<lparr>scheduled := filter (\<lambda>r. identifierOf r \<noteq> i) (scheduled p)\<rparr>))"

definition cancelAllScheduledNotificationsAsync :: "Platform \<Rightarrow> unit promise \<times> Platform" where
  "cancelAllScheduledNotificationsAsync p =
     (if CancelAllScheduled \<in> rejecting p then (Rejected, p)
      else (Resolved (), p\<lparr>scheduled := []\<rparr>))"

definition setNotificationChannelAsync :: "Platform \<Rightarrow> string \<Rightarrow> unit promise \<times> Platform" where
  "setNotificationChannelAsync p c =
     (if SetChannel \<in> rejecting p then (Rejected, p)
      else (Resolved (), p\<lparr>channels := List.insert c (channels p)\<rparr>))"

definition scheduleNotificationAsync ::
  "Platform \<Rightarrow> string \<Rightarrow> string \<Rightarrow> string \<Rightarrow> DailyTrigger \<Rightarrow> string promise \<times> Platform" where
  "scheduleNotificationAsync p t b k trg =
     (if Schedule \<in> rejecting p then (Rejected, p)
      else
        (let i = idSupply p (issued p);
             req = \<lparr>identifierOf = i, title = Some t, body = Some b, kind = Some k,
                    trigger = Some trg\<rparr>
         in (Resolved i, p\<lparr>scheduled := scheduled p @ [req], issued := Suc (issued p)\<rparr>)))"

subsection \<open>The scheduler's operations\<close>

definition hasReminderPermissions :: "Platform \<Rightarrow> bool promise" where
  "hasReminderPermissions p = getPermissionsAsync p"

definition isReminderRequest :: "NotificationRequest \<Rightarrow> bool" where
  "isReminderRequest req =
     (if kind req = Some REMINDER_KIND then True
      else title req = Some LEGACY_TITLE \<and> body req = Some LEGACY_BODY)"

text \<open>
  \<open>cancelAllReminders\<close>: every cancellation is tried, a rejection of one is ignored;
  when the listing rejects, everything is cancelled and the result is -1, or 0 when that
  rejects too.
\<close>

definition cancelEach :: "Platform \<Rightarrow> NotificationRequest list \<Rightarrow> Platform" where
  "cancelEach p reqs = foldl (\<lambda>q req. snd (cancelScheduledNotificationAsync q (identifierOf req))) p reqs"

definition cancelAllReminders :: "Platform \<Rightarrow> int \<times> Platform" where
  "cancelAllReminders p =
     (case getAllScheduledNotificationsAsync p of
        Resolved sched \<Rightarrow>
          (let toCancel = filter isReminderRequest sched
           in (int (length toCancel), cancelEach p toCancel))
      | Rejected \<Rightarrow>
          (case cancelAllScheduledNotificationsAsync p of
             (Resolved _, p') \<Rightarrow> (- 1, p')
           | (Rejected, p') \<Rightarrow> (0, p')))"

definition ensureAndroidChannel :: "Platform \<Rightarrow> unit promise \<times> Platform" where
  "ensureAndroidChannel p =
     (if \<not> android p then (Resolved (), p)
      else setNotificationChannelAsync p ''reminders'')"

definition scheduleDailyReminder :: "Platform \<Rightarrow> jsnum \<Rightarrow> jsnum \<Rightarrow> string promise \<times> Platform" where
  "scheduleDailyReminder p h mi =
     (case ensureAndroidChannel p of
        (Rejected, p') \<Rightarrow> (Rejected, p')
      | (Resolved _, p') \<Rightarrow>
          scheduleNotificationAsync p' ''Reminder'' ''Time to add today's track.'' REMINDER_KIND
            \<lparr>triggerHour = clampInt h (Fin 0) (Fin 23),
             triggerMinute = clampInt mi (Fin 0) (Fin 59),
             channelId = (if android p' then Some ''reminders'' else None)\<rparr>)"

text \<open>
  \<open>reconcileReminderSchedule\<close>: the promise it returns and the platform afterwards.
\<close>

definition scheduleAndAttach ::
  "ReminderSettings \<Rightarrow> Platform \<Rightarrow> ReminderSettings promise \<times> Platform" where
  "scheduleAndAttach settings p =
     (case scheduleDailyReminder p (hour settings) (minute settings) of
        (Rejected, p') \<Rightarrow> (Rejected, p')
      | (Resolved i, p') \<Rightarrow> (Resolved (settings\<lparr>notificationId := Some i\<rparr>), p'))"

definition reconcileReminderSchedule ::
  "ReminderSettings \<Rightarrow> Platform \<Rightarrow> ReminderSettings promise \<times> Platform" where
  "reconcileReminderSchedule settings p =
     (if \<not> enabled settings then (Resolved settings, p)
      else
        (case hasReminderPermissions p of
           Rejected \<Rightarrow> (Rejected, p)
         | Resolved ok \<Rightarrow>
             (if \<not> ok then (Resolved settings, p)
              else
                (case getAllScheduledNotificationsAsync p of
                   Rejected \<Rightarrow> (Rejected, p)
                 | Resolved sched \<Rightarrow>
                     (let reminders = filter isReminderRequest sched in
                      if length reminders = 0 then scheduleAndAttach settings p
                      else if length reminders = 1 then
                        (let onlyId = identifierOf (hd reminders) in
                         if onlyId \<noteq> [] \<and> Some onlyId \<noteq> notificationId settings
                         then (Resolved (settings\<lparr>notificationId := Some onlyId\<rparr>), p)
                         else (Resolved settings, p))
                      else
                        (case cancelAllReminders p of
                           (n, p') \<Rightarrow> scheduleAndAttach settings p'))))))"

section \<open>Vocabulary of the properties\<close>

subsection \<open>The check-in store\<close>

text \<open>A finite number: one that \<open>JSON.stringify\<close> writes as it is.\<close>

fun isFin :: "jsnum \<Rightarrow> bool" where
  "isFin (Fin _) = True"
| "isFin _ = False"

text \<open>A check-in whose four numbers are finite.\<close>

definition finiteCheckin :: "DailyCheckin \<Rightarrow> bool" where
  "finiteCheckin c =
     (isFin (energy c) \<and> isFin (mood c) \<and> isFin (focus c) \<and> isFin (updatedAt c))"

text \<open>A valid metric, in the words of the data model: an integer from 1 to 10.\<close>

definition validMetric :: "jsnum \<Rightarrow> bool" where
  "validMetric v =
     (case v of Fin r \<Rightarrow> of_int (truncRat r) = r \<and> 1 \<le> r \<and> r \<le> 10 | _ \<Rightarrow> False)"

text \<open>
  An element with the five required fields of the right primitive types, in the words of
  the specification.
\<close>

definition isStringField :: "json option \<Rightarrow> bool" where
  "isStringField v = (case v of Some (JStr _) \<Rightarrow> True | _ \<Rightarrow> False)"

definition isNumberField :: "json option \<Rightarrow> bool" where
  "isNumberField v = (case v of Some (JNum _) \<Rightarrow> True | _ \<Rightarrow> False)"

definition hasRequiredFields :: "json \<Rightarrow> bool" where
  "hasRequiredFields item =
     (case item of
        JObj kvs \<Rightarrow>
          isStringField (map_of kvs ''dateKey'') \<and>
          isNumberField (map_of kvs ''energy'') \<and>
          isNumberField (map_of kvs ''mood'') \<and>
          isNumberField (map_of kvs ''focus'') \<and>
          isNumberField (map_of kvs ''updatedAt'')
      | _ \<Rightarrow> False)"

text \<open>The invariant of the store: the records it holds have different date keys.\<close>

definition onePerDateKey :: "AsyncStorage \<Rightarrow> bool" where
  "onePerDateKey st = distinct (map dateKey (loadAllCheckins st))"

text \<open>The date keys of the persisted array, in the order in which it is stored.\<close>

definition persistedDateKeys :: "AsyncStorage \<Rightarrow> string list option" where
  "persistedDateKeys st =
     (case getItem st CHECKIN_STORAGE_KEY of
        Some (Parsed (JArr elems)) \<Rightarrow> Some (map (\<lambda>item. strProp item ''dateKey'') elems)
      | _ \<Rightarrow> None)"

text \<open>
  The list \<open>upsertTodayCheckin\<close> writes, by recursion: the first element that
  satisfies \<open>P\<close> is replaced, and without one the new element is appended.
\<close>

fun replaceFirst :: "('a \<Rightarrow> bool) \<Rightarrow> 'a \<Rightarrow> 'a list \<Rightarrow> 'a list" where
  "replaceFirst P y [] = [y]"
| "replaceFirst P y (x # xs) = (if P x then y # xs else x # replaceFirst P y xs)"

text \<open>The record \<open>upsertTodayCheckin\<close> builds and returns.\<close>

definition upsertRecord :: "Zone \<Rightarrow> int \<Rightarrow> int \<Rightarrow> CheckinValues \<Rightarrow> DailyCheckin" where
  "upsertRecord z now nowMs values =
     \<lparr>dateKey = getLocalDateKey z (case v_date values of None \<Rightarrow> TimeValue now | Some d \<Rightarrow> d),
      energy = v_energy values, mood = v_mood values, focus = v_focus values,
      updatedAt = Fin (of_int nowMs)\<rparr>"

subsection \<open>Days and zones\<close>

text \<open>The local day of a time value, counted from 1 January 1970.\<close>

definition localDay :: "Zone \<Rightarrow> int \<Rightarrow> int" where
  "localDay z t = dayOf (toLocal z t)"

text \<open>The time value of the local midnight of a day, as \<open>new Date(y, m, d)\<close> takes it.\<close>

definition midnight :: "Zone \<Rightarrow> int \<Rightarrow> int" where
  "midnight z n = toUTC z (makeDate n 0)"

text \<open>The date \<open>new Date(y, m, d)\<close> of the day \<open>n\<close>.\<close>

definition startOfDay :: "Zone \<Rightarrow> int \<Rightarrow> Date" where
  "startOfDay z n = timeClip (Some (midnight z n))"

text \<open>
  The local midnight of the day \<open>n\<close> exists: no transition skips it, so that
  \<open>new Date(y, m, d)\<close> stands at 00:00 of the day.
\<close>

definition midnightExists :: "Zone \<Rightarrow> int \<Rightarrow> bool" where
  "midnightExists z n = (toLocal z (midnight z n) = makeDate n 0)"

text \<open>
  A regular zone. The start of a day lies in that day, and converting its local time back
  gives it again; the days start one after the other; no instant is before the start of
  its local day; and the start of a day is at most a day away from its midnight in UTC.
  This holds for a zone whose transitions skip or repeat less than a day.
\<close>

definition regularZone :: "Zone \<Rightarrow> bool" where
  "regularZone z =
     ((\<forall>n. localDay z (midnight z n) = n) \<and>
      (\<forall>n. toUTC z (toLocal z (midnight z n)) = midnight z n) \<and>
      (\<forall>a b. a < b \<longrightarrow> midnight z a < midnight z b) \<and>
      (\<forall>t. midnight z (localDay z t) \<le> t) \<and>
      (\<forall>n. \<bar>midnight z n - makeDate n 0\<bar> \<le> msPerDay))"

text \<open>The zone of UTC itself.\<close>

definition utcZone :: Zone where
  "utcZone = \<lparr>toLocal = (\<lambda>t. t), toUTC = (\<lambda>t. t)\<rparr>"

text \<open>
  A zone with the two transitions of Africa/Cairo in 2024: two hours ahead of UTC, and
  three hours from 26 April, when the clocks go from 00:00 to 01:00, to the end of
  31 October, when they go from 24:00 to 23:00.
\<close>

definition cairoZone :: Zone where
  "cairoZone =
     \<lparr>toLocal = (\<lambda>t. if 1714082400000 \<le> t \<and> t < 1730408400000 then t + 10800000
                      else t + 7200000),
      toUTC = (\<lambda>l. if l < 1714093200000 then l - 7200000
                    else if l < 1730419200000 then l - 10800000
                    else l - 7200000)\<rparr>"

subsection \<open>The retention\<close>

text \<open>The test by which \<open>purgeCheckinsOlderThan\<close> keeps a record.\<close>

definition keptBy :: "Zone \<Rightarrow> Date \<Rightarrow> DailyCheckin \<Rightarrow> bool" where
  "keptBy z cutoff c = dateGe (localDateFromDateKey z (dateKey c)) cutoff"

text \<open>
  A record that the purge with the cutoff day \<open>cutoff\<close> removes: its date key parses
  to a date whose local day is strictly before the cutoff day, or to no valid date.
\<close>

definition purgedAt :: "Zone \<Rightarrow> int \<Rightarrow> DailyCheckin \<Rightarrow> bool" where
  "purgedAt z cutoff c =
     (case localDateFromDateKey z (dateKey c) of
        InvalidDate \<Rightarrow> True
      | TimeValue t \<Rightarrow> localDay z t < cutoff)"

subsection \<open>The reminder scheduler\<close>

text \<open>The scheduled requests that carry the signature of this program.\<close>

definition matching :: "Platform \<Rightarrow> NotificationRequest list" where
  "matching p = filter isReminderRequest (scheduled p)"

text \<open>The identifier the platform gives to the next request it schedules.\<close>

definition nextIdentifier :: "Platform \<Rightarrow> string" where
  "nextIdentifier p = idSupply p (issued p)"

text \<open>The request that \<open>scheduleDailyReminder\<close> creates for the given settings.\<close>

definition newReminder :: "ReminderSettings \<Rightarrow> Platform \<Rightarrow> NotificationRequest" where
  "newReminder s p =
     \<lparr>identifierOf = nextIdentifier p, title = Some ''Reminder'',
      body = Some ''Time to add today's track.'', kind = Some REMINDER_KIND,
      trigger = Some \<lparr>triggerHour = clampInt (hour s) (Fin 0) (Fin 23),
                       triggerMinute = clampInt (minute s) (Fin 0) (Fin 59),
                       channelId = (if android p then Some ''reminders'' else None)\<rparr>\<rparr>"

text \<open>The platform after \<open>scheduleDailyReminder\<close> has resolved.\<close>

definition afterSchedule :: "ReminderSettings \<Rightarrow> Platform \<Rightarrow> Platform" where
  "afterSchedule s p =
     p\<lparr>channels := (if android p then List.insert ''reminders'' (channels p) else channels p),
       scheduled := scheduled p @ [newReminder s p],
       issued := Suc (issued p)\<rparr>"

text \<open>The platform after the requests with the identifiers of \<open>reqs\<close> are cancelled.\<close>

definition afterCancel :: "NotificationRequest list \<Rightarrow> Platform \<Rightarrow> Platform" where
  "afterCancel reqs p =
     p\<lparr>scheduled := filter (\<lambda>q. identifierOf q \<notin> identifierOf ` set reqs) (scheduled p)\<rparr>"

text \<open>
  A platform in working order: no call rejects, and the identifiers of its requests, also
  of the next one, are not empty.
\<close>

definition healthy :: "Platform \<Rightarrow> bool" where
  "healthy p =
     (rejecting p = {} \<and> list_all (\<lambda>q. identifierOf q \<noteq> []) (scheduled p) \<and>
      nextIdentifier p \<noteq> [])"

text \<open>Settings of the data model: the hour an integer of 0..23, the minute of 0..59.\<close>

definition integerIn :: "int \<Rightarrow> int \<Rightarrow> jsnum \<Rightarrow> bool" where
  "integerIn lo hi v =
     (case v of Fin r \<Rightarrow> of_int (truncRat r) = r \<and> of_int lo \<le> r \<and> r \<le> of_int hi | _ \<Rightarrow> False)"

definition validTime :: "ReminderSettings \<Rightarrow> bool" where
  "validTime s = (integerIn 0 23 (hour s) \<and> integerIn 0 59 (minute s))"

subsection \<open>Examples\<close>

text \<open>A store that holds the given check-ins under the check-in key and nothing else.\<close>

definition storeOf :: "DailyCheckin list \<Rightarrow> AsyncStorage" where
  "storeOf cs = \<lparr>items = (\<lambda>k. None)(CHECKIN_STORAGE_KEY \<mapsto> stringifyCheckins cs), writes = 0\<rparr>"

text \<open>A check-in with finite numbers.\<close>

definition checkin :: "string \<Rightarrow> rat \<Rightarrow> rat \<Rightarrow> rat \<Rightarrow> rat \<Rightarrow> DailyCheckin" where
  "checkin k e m f u =
     \<lparr>dateKey = k, energy = Fin e, mood = Fin m, focus = Fin f, updatedAt = Fin u\<rparr>"

text \<open>
  The store of the scenario of the specification: 1 January 2024 with energy 3 and
  2 January 2024 with energy 7.
\<close>

definition twoDayStore :: AsyncStorage where
  "twoDayStore =
     storeOf [checkin ''2024-01-01'' 3 5 5 1704067200000, checkin ''2024-01-02'' 7 5 5 1704153600000]"

text \<open>Stores that hold one check-in, for 1 January 2024 and for 2 January 2024.\<close>

definition jan1Store :: AsyncStorage where
  "jan1Store = storeOf [checkin ''2024-01-01'' 3 5 5 1704067200000]"

definition jan2Store :: AsyncStorage where
  "jan2Store = storeOf [checkin ''2024-01-02'' 7 5 5 1704153600000]"

text \<open>
  A store with records of 3 October 2023, of 4 October 2023 and of 1 January 2024, and
  one whose date key is no date.
\<close>

definition autumnStore :: AsyncStorage where
  "autumnStore =
     storeOf [checkin ''2023-10-03'' 4 4 4 1696320000000, checkin ''2023-10-04'' 5 5 5 1696406400000,
              checkin ''2024-01-01'' 3 5 5 1704067200000, checkin ''someday'' 1 1 1 0]"

text \<open>
  Stores for the zone of Cairo: one with records of 28 and of 29 January 2024, and one
  with records of 25 and of 26 April 2024.
\<close>

definition winterStore :: AsyncStorage where
  "winterStore =
     storeOf [checkin ''2024-01-28'' 6 6 6 1706436000000, checkin ''2024-01-29'' 7 7 7 1706522400000]"

definition aprilStore :: AsyncStorage where
  "aprilStore =
     storeOf [checkin ''2024-04-25'' 4 4 4 1714068000000, checkin ''2024-04-26'' 5 5 5 1714122000000]"

text \<open>
  A stored array of two check-ins among four elements that are none: a number, an
  object without \<open>focus\<close> and \<open>updatedAt\<close>, \<open>null\<close>, and an object whose
  \<open>dateKey\<close> is a number.
\<close>

definition mixedElems :: "json list" where
  "mixedElems =
     [checkinToJson (checkin ''2024-01-02'' 7 5 5 1704153600000),
      JNum 5,
      JObj [(''dateKey'', JStr ''2024-01-03''), (''energy'', JNum 4), (''mood'', JNum 4)],
      checkinToJson (checkin ''2024-01-01'' 3 5 5 1704067200000),
      JNull,
      JObj [(''dateKey'', JNum 20240104), (''energy'', JNum 4), (''mood'', JNum 4),
            (''focus'', JNum 4), (''updatedAt'', JNum 1)]]"

definition mixedStore :: AsyncStorage where
  "mixedStore = \<lparr>items = (\<lambda>k. None)(CHECKIN_STORAGE_KEY \<mapsto> Parsed (JArr mixedElems)), writes = 0\<rparr>"

text \<open>A store with nothing in it, and one whose check-in string does not parse.\<close>

definition emptyStore :: AsyncStorage where
  "emptyStore = \<lparr>items = (\<lambda>k. None), writes = 0\<rparr>"

definition malformedStore :: AsyncStorage where
  "malformedStore = \<lparr>items = (\<lambda>k. None)(CHECKIN_STORAGE_KEY \<mapsto> Malformed), writes = 0\<rparr>"

text \<open>
  A store with the given value under the key of the reminder settings, and a stored
  settings object whose hour and minute are no integers.
\<close>

definition reminderStore :: "stored option \<Rightarrow> AsyncStorage" where
  "reminderStore v = \<lparr>items = (\<lambda>k. None)(REMINDER_STORAGE_KEY := v), writes = 0\<rparr>"

definition driftedSettingsJson :: json where
  "driftedSettingsJson =
     JObj [(''enabled'', JBool True), (''hour'', JNum (79 / 10)), (''minute'', JNum (- 9 / 10)),
           (''notificationId'', JStr ''abc'')]"

text \<open>
  Scheduled requests: one with the tag of this program, one with the legacy title and
  body, and one of another kind.
\<close>

definition taggedReminder :: "string \<Rightarrow> NotificationRequest" where
  "taggedReminder i =
     \<lparr>identifierOf = i, title = Some ''Reminder'', body = Some ''Time to add today's track.'',
      kind = Some REMINDER_KIND,
      trigger = Some \<lparr>triggerHour = Fin 20, triggerMinute = Fin 0, channelId = None\<rparr>\<rparr>"

definition legacyReminder :: "string \<Rightarrow> NotificationRequest" where
  "legacyReminder i =
     \<lparr>identifierOf = i, title = Some ''Reminder'', body = Some ''Time to add today's track.'',
      kind = None,
      trigger = Some \<lparr>triggerHour = Fin 20, triggerMinute = Fin 0, channelId = None\<rparr>\<rparr>"

definition otherRequest :: "string \<Rightarrow> NotificationRequest" where
  "otherRequest i =
     \<lparr>identifierOf = i, title = Some ''Backup'', body = Some ''Done.'', kind = None,
      trigger = None\<rparr>"

text \<open>
  A platform that is not Android, with the given permission and requests, whose calls
  resolve and whose identifiers are \<open>n0\<close>, \<open>n1\<close> and so on; one with two
  duplicate reminders; and settings, enabled with a stale identifier and disabled.
\<close>

definition platformWith :: "bool \<Rightarrow> NotificationRequest list \<Rightarrow> Platform" where
  "platformWith g reqs =
     \<lparr>android = False, granted = g, scheduled = reqs, channels = [],
      idSupply = (\<lambda>n. ''n'' @ showNat n), issued = 0, rejecting = {}\<rparr>"

definition duplicatePlatform :: Platform where
  "duplicatePlatform = platformWith True [taggedReminder ''r1'', otherRequest ''x1'', legacyReminder ''r2'']"

definition enabledSettings :: ReminderSettings where
  "enabledSettings = \<lparr>enabled = True, hour = Fin 20, minute = Fin 0, notificationId = Some ''stale''\<rparr>"

definition disabledSettings :: ReminderSettings where
  "disabledSettings = \<lparr>enabled = False, hour = Fin 20, minute = Fin 0, notificationId = None\<rparr>"

section \<open>Lemmas on the store\<close>

lemma typeof_number_iff: "typeof v = ''number'' \<longleftrightarrow> (\<exists>r. v = Some (JNum r))"
  by (cases v rule: typeof.cases) auto

lemma typeof_string_iff: "typeof v = ''string'' \<longleftrightarrow> (\<exists>s. v = Some (JStr s))"
  by (cases v rule: typeof.cases) auto

lemma typeof_numToJson: "typeof (Some (numToJson x)) = ''number'' \<longleftrightarrow> isFin x"
  by (cases x) (simp_all add: numToJson_def)

lemma isDailyCheckin_checkinToJson: "isDailyCheckin (checkinToJson c) = finiteCheckin c"
  by (simp add: isDailyCheckin_def checkinToJson_def finiteCheckin_def typeof_numToJson)

lemma numProp_numToJson:
  "isFin x \<Longrightarrow> (case Some (numToJson x) of Some (JNum r) \<Rightarrow> Fin r | _ \<Rightarrow> NaN) = x"
  by (cases x) (simp_all add: numToJson_def)

lemma asDailyCheckin_checkinToJson:
  "finiteCheckin c \<Longrightarrow> asDailyCheckin (checkinToJson c) = c"
  using numProp_numToJson
  by (simp add: asDailyCheckin_def checkinToJson_def finiteCheckin_def strProp_def numProp_def)

lemma isDailyCheckin_finite: "isDailyCheckin item \<Longrightarrow> finiteCheckin (asDailyCheckin item)"
  by (auto simp: isDailyCheckin_def finiteCheckin_def asDailyCheckin_def numProp_def
      typeof_number_iff split: if_splits)

lemma isDailyCheckin_iff: "isDailyCheckin item = hasRequiredFields item"
proof (cases item)
  case (JObj kvs)
  then show ?thesis
    by (auto simp: isDailyCheckin_def hasRequiredFields_def isStringField_def isNumberField_def
        typeof_number_iff typeof_string_iff split: option.splits json.splits)
qed (simp_all add: isDailyCheckin_def hasRequiredFields_def)

lemma reload_map:
  "map asDailyCheckin (filter isDailyCheckin (map checkinToJson cs)) = filter finiteCheckin cs"
  by (induction cs) (simp_all add: isDailyCheckin_checkinToJson asDailyCheckin_checkinToJson)

lemma getItem_setItem: "getItem (setItem st k v) k = Some v"
  by (simp add: getItem_def setItem_def)

lemma loadAllCheckins_written:
  "loadAllCheckins (setItem st CHECKIN_STORAGE_KEY (stringifyCheckins cs)) =
     sortByDateKey (filter finiteCheckin cs)"
  by (simp add: loadAllCheckins_def getItem_setItem stringifyCheckins_def reload_map)

lemma loadAllCheckins_finite: "c \<in> set (loadAllCheckins st) \<Longrightarrow> finiteCheckin c"
  by (auto simp: loadAllCheckins_def sortByDateKey_def isDailyCheckin_finite
      split: option.splits stored.splits json.splits)

lemma filter_finite_loaded: "filter finiteCheckin (loadAllCheckins st) = loadAllCheckins st"
  by (simp add: loadAllCheckins_finite)

lemma loadAllCheckins_sorted: "sorted (map dateKey (loadAllCheckins st))"
  by (auto simp: loadAllCheckins_def sortByDateKey_def
      split: option.splits stored.splits json.splits)

lemma upsert_written:
  "(if 0 \<le> findIndex P xs then xs[nat (findIndex P xs) := y] else xs @ [y]) = replaceFirst P y xs"
proof (induction xs)
  case Nil
  then show ?case by simp
next
  case (Cons x xs)
  then show ?case
    by (cases "P x") (auto simp: Let_def nat_add_distrib split: if_splits)
qed

lemma find_as_filter: "List.find P xs = (case filter P xs of [] \<Rightarrow> None | x # _ \<Rightarrow> Some x)"
  by (induction xs) auto

lemma filter_replaceFirst:
  "P y \<Longrightarrow> filter P (replaceFirst P y xs) = y # tl (filter P xs)"
  by (induction xs) auto

lemma length_replaceFirst:
  "length (replaceFirst P y xs) = (if \<exists>x\<in>set xs. P x then length xs else Suc (length xs))"
  by (induction xs) auto

lemma set_replaceFirst: "set (replaceFirst P y xs) \<subseteq> insert y (set xs)"
  by (induction xs) auto

lemma distinct_replaceFirst:
  "distinct (map f xs) \<Longrightarrow> distinct (map f (replaceFirst (\<lambda>c. f c = f y) y xs))"
proof (induction xs)
  case Nil
  then show ?case by simp
next
  case (Cons x xs)
  have "f ` set (replaceFirst (\<lambda>c. f c = f y) y xs) \<subseteq> insert (f y) (f ` set xs)"
    using set_replaceFirst[of "\<lambda>c. f c = f y" y xs] by auto
  with Cons show ?case by auto
qed

lemma distinct_key_filter_short:
  "distinct (map f xs) \<Longrightarrow> tl (filter (\<lambda>c. f c = k) xs) = []"
proof (induction xs)
  case Nil
  then show ?case by simp
next
  case (Cons x xs)
  from Cons.prems have "f x = k \<Longrightarrow> filter (\<lambda>c. f c = k) xs = []"
    by (fastforce simp: filter_empty_conv image_iff)
  moreover from Cons have "tl (filter (\<lambda>c. f c = k) xs) = []"
    by simp
  ultimately show ?case by (cases "f x = k") simp_all
qed

lemma distinct_keys_sort_filter:
  "distinct (map f xs) \<Longrightarrow> distinct (map f (sort_key g (filter Q xs)))"
  by (auto simp: distinct_map inj_on_def)

lemma fst_upsert: "fst (upsertTodayCheckin z now nowMs values st) = upsertRecord z now nowMs values"
  by (simp add: upsertTodayCheckin_def upsertRecord_def Let_def)

lemma load_after_upsert:
  "loadAllCheckins (snd (upsertTodayCheckin z now nowMs values st)) =
     sortByDateKey (filter finiteCheckin
       (replaceFirst (\<lambda>c. dateKey c = dateKey (upsertRecord z now nowMs values))
          (upsertRecord z now nowMs values) (loadAllCheckins st)))"
  by (simp add: upsertTodayCheckin_def upsertRecord_def Let_def upsert_written
      loadAllCheckins_written)

lemma load_after_upsert_finite:
  assumes "finiteCheckin (upsertRecord z now nowMs values)"
  shows "loadAllCheckins (snd (upsertTodayCheckin z now nowMs values st)) =
     sortByDateKey (replaceFirst (\<lambda>c. dateKey c = dateKey (upsertRecord z now nowMs values))
          (upsertRecord z now nowMs values) (loadAllCheckins st))"
proof -
  have "\<forall>c \<in> set (replaceFirst (\<lambda>c. dateKey c = dateKey (upsertRecord z now nowMs values))
          (upsertRecord z now nowMs values) (loadAllCheckins st)). finiteCheckin c"
    using set_replaceFirst[of _ "upsertRecord z now nowMs values" "loadAllCheckins st"]
      assms loadAllCheckins_finite by blast
  then show ?thesis by (simp add: load_after_upsert)
qed

lemma upsert_keeps_invariant:
  assumes "onePerDateKey st"
  shows "onePerDateKey (snd (upsertTodayCheckin z now nowMs values st))"
proof -
  let ?r = "upsertRecord z now nowMs values"
  have "distinct (map dateKey (replaceFirst (\<lambda>c. dateKey c = dateKey ?r) ?r (loadAllCheckins st)))"
    using assms distinct_replaceFirst[of dateKey "loadAllCheckins st" ?r]
    by (simp add: onePerDateKey_def)
  then show ?thesis
    by (simp add: onePerDateKey_def load_after_upsert sortByDateKey_def distinct_keys_sort_filter)
qed

lemma filter_key_after_upsert:
  assumes "finiteCheckin (upsertRecord z now nowMs values)"
  shows "filter (\<lambda>c. dateKey c = dateKey (upsertRecord z now nowMs values))
           (loadAllCheckins (snd (upsertTodayCheckin z now nowMs values st))) =
         upsertRecord z now nowMs values #
           tl (filter (\<lambda>c. dateKey c = dateKey (upsertRecord z now nowMs values)) (loadAllCheckins st))"
  by (simp add: load_after_upsert_finite[OF assms] sortByDateKey_def sort_key_stable
      filter_replaceFirst)

lemma validMetric_isFin: "validMetric v \<Longrightarrow> isFin v"
  by (cases v) (simp_all add: validMetric_def)

lemmas calendar_defs = yearFromDay_def dayFromYear_def monthFromDay_def dateFromDay_def
  dayWithinYear_def daysBeforeMonth_def inLeapYear_def

lemma truncRat_of_int [simp]: "truncRat (of_int i) = i"
  by (simp add: truncRat_def)

lemma truncRat_numeral [simp]: "truncRat (numeral k) = numeral k"
  using truncRat_of_int[of "numeral k"] by simp

lemma truncRat_neg_numeral [simp]: "truncRat (- numeral k) = - numeral k"
  using truncRat_of_int[of "- numeral k"] by simp

lemma truncRat_0 [simp]: "truncRat 0 = 0"
  using truncRat_of_int[of 0] by simp

lemma truncRat_1 [simp]: "truncRat 1 = 1"
  using truncRat_of_int[of 1] by simp

lemma truncRat_neg_1 [simp]: "truncRat (- 1) = - 1"
  using truncRat_of_int[of "- 1"] by simp

lemma civil_19723:
  "yearFromDay 19723 = 2024" "monthFromDay 19723 = 0" "dateFromDay 19723 = 1"
  by (simp_all add: calendar_defs)

lemma dateKey_19723:
  assumes "localDay z t = 19723"
  shows "getLocalDateKey z (TimeValue t) = ''2024-01-01''"
  using assms
  by (simp add: getLocalDateKey_def getFullYear_def getMonth_def getDate_def localDay_def
      civil_19723 numToString_def showInt_def showNat.simps digitChar_def padStart_def)

lemma utcZone_simps [simp]: "toLocal utcZone t = t" "toUTC utcZone t = t"
  by (simp_all add: utcZone_def)

lemma localDay_utc_examples:
  "localDay utcZone 1704067200000 = 19723" "localDay utcZone 1704100000000 = 19723"
  "localDay utcZone 1704090000000 = 19723"
  by (simp_all add: localDay_def dayOf_def msPerDay_def)

lemma filter_full_length: "length (filter P xs) = length xs \<Longrightarrow> filter P xs = xs"
proof (induction xs)
  case Nil
  then show ?case by simp
next
  case (Cons x xs)
  have "length (filter P xs) \<le> length xs" by simp
  with Cons show ?case by (cases "P x") auto
qed

lemma sort_filter_loaded:
  "sortByDateKey (filter P (loadAllCheckins st)) = filter P (loadAllCheckins st)"
  unfolding sortByDateKey_def
  by (rule sort_key_id_if_sorted) (rule sorted_filter, rule loadAllCheckins_sorted)

lemma load_saved_kept:
  "loadAllCheckins (saveAllCheckins st (filter P (loadAllCheckins st))) = filter P (loadAllCheckins st)"
proof -
  have "filter finiteCheckin (filter P (loadAllCheckins st)) = filter P (loadAllCheckins st)"
    by (rule filter_True) (auto intro: loadAllCheckins_finite)
  then show ?thesis
    by (simp add: saveAllCheckins_def loadAllCheckins_written sort_filter_loaded)
qed

lemma purge_load:
  "loadAllCheckins (snd (purgeCheckinsOlderThan z now d st)) =
     filter (keptBy z (purgeCutoff z now (nullish d (Fin 90)))) (loadAllCheckins st)"
proof -
  let ?P = "keptBy z (purgeCutoff z now (nullish d (Fin 90)))"
  let ?L = "loadAllCheckins st"
  have P: "(\<lambda>c. dateGe (localDateFromDateKey z (dateKey c)) (purgeCutoff z now (nullish d (Fin 90)))) = ?P"
    by (simp add: keptBy_def fun_eq_iff)
  show ?thesis
  proof (cases "length (filter ?P ?L) = length ?L")
    case True
    then have "filter ?P ?L = ?L" by (rule filter_full_length)
    with True show ?thesis
      by (simp add: purgeCheckinsOlderThan_def Let_def P)
  next
    case False
    then have "?L \<noteq> []" by auto
    with False show ?thesis
      by (simp add: purgeCheckinsOlderThan_def Let_def P load_saved_kept)
  qed
qed

lemma purge_count:
  "fst (purgeCheckinsOlderThan z now d st) =
     length (filter (\<lambda>c. \<not> keptBy z (purgeCutoff z now (nullish d (Fin 90))) c) (loadAllCheckins st))"
proof -
  let ?P = "keptBy z (purgeCutoff z now (nullish d (Fin 90)))"
  let ?L = "loadAllCheckins st"
  have P: "(\<lambda>c. dateGe (localDateFromDateKey z (dateKey c)) (purgeCutoff z now (nullish d (Fin 90)))) = ?P"
    by (simp add: keptBy_def fun_eq_iff)
  have sum: "length (filter ?P ?L) + length (filter (\<lambda>c. \<not> ?P c) ?L) = length ?L"
    by (rule sum_length_filter_compl)
  then show ?thesis
    by (auto simp: purgeCheckinsOlderThan_def Let_def P)
qed

lemma purge_no_write:
  assumes "filter (keptBy z (purgeCutoff z now (nullish d (Fin 90)))) (loadAllCheckins st) = loadAllCheckins st"
  shows "purgeCheckinsOlderThan z now d st = (0, st)"
proof -
  have P: "(\<lambda>c. dateGe (localDateFromDateKey z (dateKey c)) (purgeCutoff z now (nullish d (Fin 90)))) =
      keptBy z (purgeCutoff z now (nullish d (Fin 90)))"
    by (simp add: keptBy_def fun_eq_iff)
  show ?thesis using assms
    by (simp add: purgeCheckinsOlderThan_def Let_def P)
qed

lemma purge_twice:
  "purgeCheckinsOlderThan z now d (snd (purgeCheckinsOlderThan z now d st)) =
     (0, snd (purgeCheckinsOlderThan z now d st))"
  by (rule purge_no_write) (simp add: purge_load)

lemma load_cleared: "loadAllCheckins (clearAllCheckins st) = []"
  by (simp add: loadAllCheckins_def clearAllCheckins_def removeItem_def getItem_def)

lemma load_storeOf: "loadAllCheckins (storeOf cs) = sortByDateKey (filter finiteCheckin cs)"
  by (simp add: storeOf_def loadAllCheckins_def getItem_def stringifyCheckins_def reload_map)

lemma finite_checkin [simp]: "finiteCheckin (checkin k e m f u)"
  by (simp add: finiteCheckin_def checkin_def)

lemma dateKey_checkin [simp]: "dateKey (checkin k e m f u) = k"
  by (simp add: checkin_def)

lemma load_twoDayStore:
  "loadAllCheckins twoDayStore =
     [checkin ''2024-01-01'' 3 5 5 1704067200000, checkin ''2024-01-02'' 7 5 5 1704153600000]"
  by (simp add: twoDayStore_def load_storeOf sortByDateKey_def)

section \<open>Properties of the check-in store\<close>

lemma filter_mixedElems:
  "filter hasRequiredFields mixedElems =
     [checkinToJson (checkin ''2024-01-02'' 7 5 5 1704153600000),
      checkinToJson (checkin ''2024-01-01'' 3 5 5 1704067200000)]"
  by (simp add: mixedElems_def hasRequiredFields_def checkinToJson_def checkin_def
      numToJson_def isStringField_def isNumberField_def)

lemma asDailyCheckin_checkin: "asDailyCheckin (checkinToJson (checkin k e m f u)) = checkin k e m f u"
  by (simp add: asDailyCheckin_checkinToJson finiteCheckin_def checkin_def)

lemma onePerDateKey_twoDayStore: "onePerDateKey twoDayStore"
  by (simp add: onePerDateKey_def load_twoDayStore)

text \<open>
  C8. \<open>loadAllCheckins\<close> returns the empty list when the stored value is absent or
  does not parse as JSON. From a stored array it keeps exactly the elements that have the
  five required fields with the right primitive types (\<open>dateKey\<close> a string;
  \<open>energy\<close>, \<open>mood\<close>, \<open>focus\<close>, \<open>updatedAt\<close> numbers), each as often as
  it is stored, and drops the others; it has no error result. What it returns is sorted
  ascending by \<open>dateKey\<close>.
\<close>

theorem loadAllCheckins_validates:
  "(getItem st CHECKIN_STORAGE_KEY = None \<longrightarrow> loadAllCheckins st = []) \<and>
   (getItem st CHECKIN_STORAGE_KEY = Some Malformed \<longrightarrow> loadAllCheckins st = []) \<and>
   (getItem st CHECKIN_STORAGE_KEY = Some (Parsed (JArr elems)) \<longrightarrow>
      mset (loadAllCheckins st) = mset (map asDailyCheckin (filter hasRequiredFields elems))) \<and>
   sorted (map dateKey (loadAllCheckins st))"
proof -
  have "isDailyCheckin = hasRequiredFields"
    by (rule ext) (rule isDailyCheckin_iff)
  then show ?thesis
    by (simp add: loadAllCheckins_sorted) (simp add: loadAllCheckins_def sortByDateKey_def)
qed

theorem loadAllCheckins_validates_witness:
  "getItem emptyStore CHECKIN_STORAGE_KEY = None \<and> loadAllCheckins emptyStore = [] \<and>
   getItem malformedStore CHECKIN_STORAGE_KEY = Some Malformed \<and>
   loadAllCheckins malformedStore = [] \<and>
   getItem mixedStore CHECKIN_STORAGE_KEY = Some (Parsed (JArr mixedElems)) \<and>
   mset (loadAllCheckins mixedStore) =
     mset [checkin ''2024-01-02'' 7 5 5 1704153600000, checkin ''2024-01-01'' 3 5 5 1704067200000] \<and>
   sorted (map dateKey (loadAllCheckins mixedStore))"
proof -
  have a: "getItem emptyStore CHECKIN_STORAGE_KEY = None"
    by (simp add: getItem_def emptyStore_def)
  have b: "getItem malformedStore CHECKIN_STORAGE_KEY = Some Malformed"
    by (simp add: getItem_def malformedStore_def)
  have c: "getItem mixedStore CHECKIN_STORAGE_KEY = Some (Parsed (JArr mixedElems))"
    by (simp add: getItem_def mixedStore_def)
  have d: "map asDailyCheckin (filter hasRequiredFields mixedElems) =
     [checkin ''2024-01-02'' 7 5 5 1704153600000, checkin ''2024-01-01'' 3 5 5 1704067200000]"
    by (simp add: filter_mixedElems asDailyCheckin_checkin)
  show ?thesis
    using a b c loadAllCheckins_validates[of emptyStore] loadAllCheckins_validates[of malformedStore]
      loadAllCheckins_validates[of mixedStore mixedElems]
    unfolding d by blast
qed

text \<open>
  C2. For every valid triple of metrics (integers from 1 to 10) and every date, also an
  absent one, \<open>upsertTodayCheckin\<close> followed by \<open>loadCheckinForDate\<close> on the
  date key of that date returns the record with these values, which is the record the
  upsert returned. Its \<open>updatedAt\<close> is the reading \<open>nowMs\<close> of \<open>Date.now()\<close>
  taken during the call, which is not before the time of the call when the clock does not
  run backwards.
\<close>

theorem upsert_then_load:
  assumes "validMetric e" and "validMetric m" and "validMetric f" and "callTime \<le> nowMs"
  shows "loadCheckinForDate
           (snd (upsertTodayCheckin z now nowMs \<lparr>v_energy = e, v_mood = m, v_focus = f, v_date = d\<rparr> st))
           (getLocalDateKey z (case d of None \<Rightarrow> TimeValue now | Some x \<Rightarrow> x)) =
         Some \<lparr>dateKey = getLocalDateKey z (case d of None \<Rightarrow> TimeValue now | Some x \<Rightarrow> x),
               energy = e, mood = m, focus = f, updatedAt = Fin (of_int nowMs)\<rparr> \<and>
         fst (upsertTodayCheckin z now nowMs \<lparr>v_energy = e, v_mood = m, v_focus = f, v_date = d\<rparr> st) =
           \<lparr>dateKey = getLocalDateKey z (case d of None \<Rightarrow> TimeValue now | Some x \<Rightarrow> x),
            energy = e, mood = m, focus = f, updatedAt = Fin (of_int nowMs)\<rparr> \<and>
         jsGe (Fin (of_int nowMs)) (Fin (of_int callTime))"
proof -
  let ?v = "\<lparr>v_energy = e, v_mood = m, v_focus = f, v_date = d\<rparr>"
  let ?r = "upsertRecord z now nowMs ?v"
  have fin: "finiteCheckin ?r"
    using assms by (simp add: finiteCheckin_def upsertRecord_def validMetric_isFin)
  have r: "?r = \<lparr>dateKey = getLocalDateKey z (case d of None \<Rightarrow> TimeValue now | Some x \<Rightarrow> x),
               energy = e, mood = m, focus = f, updatedAt = Fin (of_int nowMs)\<rparr>"
    by (simp add: upsertRecord_def)
  have k: "dateKey ?r = getLocalDateKey z (case d of None \<Rightarrow> TimeValue now | Some x \<Rightarrow> x)"
    by (simp add: upsertRecord_def)
  have "loadCheckinForDate (snd (upsertTodayCheckin z now nowMs ?v st)) (dateKey ?r) = Some ?r"
    unfolding loadCheckinForDate_def find_as_filter filter_key_after_upsert[OF fin]
    by simp
  then show ?thesis
    using assms(4) unfolding k fst_upsert r by simp
qed

theorem upsert_then_load_witness:
  "validMetric (Fin 9) \<and> validMetric (Fin 4) \<and> validMetric (Fin 6) \<and>
   (1704099999999 :: int) \<le> 1704100000000 \<and>
   loadCheckinForDate
     (snd (upsertTodayCheckin utcZone 1704100000000 1704100000000
        \<lparr>v_energy = Fin 9, v_mood = Fin 4, v_focus = Fin 6, v_date = None\<rparr> twoDayStore))
     ''2024-01-01'' = Some (checkin ''2024-01-01'' 9 4 6 1704100000000)"
proof -
  have v: "validMetric (Fin 9)" "validMetric (Fin 4)" "validMetric (Fin 6)"
    by (simp_all add: validMetric_def)
  have c: "(1704099999999 :: int) \<le> 1704100000000"
    by simp
  from upsert_then_load[OF v c, of utcZone 1704100000000 None twoDayStore] v c show ?thesis
    by (simp add: dateKey_19723[OF localDay_utc_examples(2)] checkin_def)
qed

text \<open>
  C3. The upsert, the purge and the clearing of the store each keep the invariant that
  the records of the store have different date keys. In a store with the invariant, two
  upserts for the same date leave exactly one record for its date key, the one with the
  values of the second call, when these are finite numbers (\<open>JSON.stringify\<close> writes
  any other number as \<open>null\<close>, and the record does not load again). An upsert with
  finite values for a date key that the store holds leaves the number of records as it
  was.
\<close>

theorem one_record_per_dateKey:
  assumes "onePerDateKey st"
  shows "onePerDateKey (snd (upsertTodayCheckin z now nowMs values st)) \<and>
         onePerDateKey (snd (purgeCheckinsOlderThan z now days st)) \<and>
         onePerDateKey (clearAllCheckins st) \<and>
         (isFin e2 \<and> isFin m2 \<and> isFin f2 \<longrightarrow>
            filter (\<lambda>c. dateKey c = getLocalDateKey z (case d of None \<Rightarrow> TimeValue now | Some x \<Rightarrow> x))
              (loadAllCheckins
                (snd (upsertTodayCheckin z now t2 \<lparr>v_energy = e2, v_mood = m2, v_focus = f2, v_date = d\<rparr>
                  (snd (upsertTodayCheckin z now t1 \<lparr>v_energy = e1, v_mood = m1, v_focus = f1, v_date = d\<rparr> st))))) =
            [\<lparr>dateKey = getLocalDateKey z (case d of None \<Rightarrow> TimeValue now | Some x \<Rightarrow> x),
              energy = e2, mood = m2, focus = f2, updatedAt = Fin (of_int t2)\<rparr>]) \<and>
         (isFin e2 \<and> isFin m2 \<and> isFin f2 \<and>
          getLocalDateKey z (case d of None \<Rightarrow> TimeValue now | Some x \<Rightarrow> x) \<in> dateKey ` set (loadAllCheckins st) \<longrightarrow>
            length (loadAllCheckins
              (snd (upsertTodayCheckin z now t2 \<lparr>v_energy = e2, v_mood = m2, v_focus = f2, v_date = d\<rparr> st))) =
            length (loadAllCheckins st))"
proof -
  let ?k = "getLocalDateKey z (case d of None \<Rightarrow> TimeValue now | Some x \<Rightarrow> x)"
  let ?v1 = "\<lparr>v_energy = e1, v_mood = m1, v_focus = f1, v_date = d\<rparr>"
  let ?v2 = "\<lparr>v_energy = e2, v_mood = m2, v_focus = f2, v_date = d\<rparr>"
  let ?r2 = "upsertRecord z now t2 ?v2"
  have r2: "?r2 = \<lparr>dateKey = ?k, energy = e2, mood = m2, focus = f2, updatedAt = Fin (of_int t2)\<rparr>"
    by (simp add: upsertRecord_def)
  have k2: "dateKey ?r2 = ?k"
    by (simp add: upsertRecord_def)
  have up: "onePerDateKey (snd (upsertTodayCheckin z now nowMs values st))"
    using assms by (rule upsert_keeps_invariant)
  have pu: "onePerDateKey (snd (purgeCheckinsOlderThan z now days st))"
    using assms by (simp add: onePerDateKey_def purge_load distinct_map_filter)
  have cl: "onePerDateKey (clearAllCheckins st)"
    by (simp add: onePerDateKey_def load_cleared)
  have twice: "filter (\<lambda>c. dateKey c = ?k)
      (loadAllCheckins (snd (upsertTodayCheckin z now t2 ?v2 (snd (upsertTodayCheckin z now t1 ?v1 st))))) = [?r2]"
    if fin: "isFin e2 \<and> isFin m2 \<and> isFin f2"
  proof -
    let ?st1 = "snd (upsertTodayCheckin z now t1 ?v1 st)"
    have f2: "finiteCheckin ?r2"
      using fin by (simp add: finiteCheckin_def upsertRecord_def)
    have "onePerDateKey ?st1"
      using assms by (rule upsert_keeps_invariant)
    then have "tl (filter (\<lambda>c. dateKey c = ?k) (loadAllCheckins ?st1)) = []"
      unfolding onePerDateKey_def by (rule distinct_key_filter_short)
    with filter_key_after_upsert[OF f2, of ?st1] show ?thesis
      unfolding k2 by simp
  qed
  have count: "length (loadAllCheckins (snd (upsertTodayCheckin z now t2 ?v2 st))) = length (loadAllCheckins st)"
    if fin: "isFin e2 \<and> isFin m2 \<and> isFin f2" and ex: "?k \<in> dateKey ` set (loadAllCheckins st)"
  proof -
    have f2: "finiteCheckin ?r2"
      using fin by (simp add: finiteCheckin_def upsertRecord_def)
    from ex have "\<exists>x\<in>set (loadAllCheckins st). dateKey x = dateKey ?r2"
      unfolding k2 by auto
    then show ?thesis
      by (simp add: load_after_upsert_finite[OF f2] sortByDateKey_def length_replaceFirst)
  qed
  from up pu cl twice count show ?thesis
    unfolding r2 by blast
qed

theorem one_record_per_dateKey_witness:
  "onePerDateKey twoDayStore \<and>
   onePerDateKey (snd (upsertTodayCheckin utcZone 1704100000000 1704100000000
      \<lparr>v_energy = Fin 9, v_mood = Fin 4, v_focus = Fin 6, v_date = None\<rparr> twoDayStore)) \<and>
   filter (\<lambda>c. dateKey c = ''2024-01-01'')
     (loadAllCheckins
       (snd (upsertTodayCheckin utcZone 1704100000000 1704100000000 \<lparr>v_energy = Fin 9, v_mood = Fin 4, v_focus = Fin 6, v_date = None\<rparr>
         (snd (upsertTodayCheckin utcZone 1704100000000 1704090000000 \<lparr>v_energy = Fin 8, v_mood = Fin 2, v_focus = Fin 2, v_date = None\<rparr>
            twoDayStore))))) =
     [checkin ''2024-01-01'' 9 4 6 1704100000000] \<and>
   length (loadAllCheckins
     (snd (upsertTodayCheckin utcZone 1704100000000 1704100000000
        \<lparr>v_energy = Fin 9, v_mood = Fin 4, v_focus = Fin 6, v_date = None\<rparr> twoDayStore))) = 2"
proof -
  have fin: "isFin (Fin 9) \<and> isFin (Fin 4) \<and> isFin (Fin 6)"
    by simp
  have ex: "getLocalDateKey utcZone (case None of None \<Rightarrow> TimeValue 1704100000000 | Some x \<Rightarrow> x)
      \<in> dateKey ` set (loadAllCheckins twoDayStore)"
    by (simp add: dateKey_19723[OF localDay_utc_examples(2)] load_twoDayStore)
  have len: "length (loadAllCheckins twoDayStore) = 2"
    by (simp add: load_twoDayStore)
  note t = one_record_per_dateKey[OF onePerDateKey_twoDayStore,
      of utcZone 1704100000000 1704100000000 "\<lparr>v_energy = Fin 9, v_mood = Fin 4, v_focus = Fin 6, v_date = None\<rparr>"
         "Some (Fin 90)" "Fin 9" "Fin 4" "Fin 6" None 1704100000000 1704090000000 "Fin 8" "Fin 2" "Fin 2"]
  from t fin ex show ?thesis
    by (simp add: onePerDateKey_twoDayStore dateKey_19723[OF localDay_utc_examples(2)]
        checkin_def len)
qed

text \<open>
  C7. After every write the persisted array would be sorted ascending by \<open>dateKey\<close>.
  \<open>upsertTodayCheckin\<close> breaks this: it appends a record for a new date and writes
  the array as it stands, without \<open>saveAllCheckins\<close>, which sorts. With 2 January
  2024 in the store, an upsert for 1 January 2024 (in the zone of UTC) persists the two
  keys in the order 2 January, 1 January.
\<close>

theorem upsert_persists_unsorted:
  "persistedDateKeys
     (snd (upsertTodayCheckin utcZone 1704100000000 1704100000000
        \<lparr>v_energy = Fin 5, v_mood = Fin 5, v_focus = Fin 5, v_date = Some (TimeValue 1704067200000)\<rparr> jan2Store)) =
     Some [''2024-01-02'', ''2024-01-01''] \<and>
   \<not> sorted [''2024-01-02'', ''2024-01-01'']"
proof -
  have l: "loadAllCheckins jan2Store = [checkin ''2024-01-02'' 7 5 5 1704153600000]"
    by (simp add: jan2Store_def load_storeOf sortByDateKey_def)
  show ?thesis
    by (simp add: upsertTodayCheckin_def Let_def l dateKey_19723[OF localDay_utc_examples(1)]
        persistedDateKeys_def getItem_setItem stringifyCheckins_def checkinToJson_def
        strProp_def)
qed

section \<open>Properties of the reminder settings\<close>

lemma clampInt_Fin:
  "clampInt (Fin v) (Fin (of_int lo)) (Fin (of_int hi)) = Fin (of_int (min hi (max lo (truncRat v))))"
  by (simp add: clampInt_def mathTrunc_def)

lemma clampInt_0_23: "clampInt (Fin v) (Fin 0) (Fin 23) = Fin (of_int (min 23 (max 0 (truncRat v))))"
  using clampInt_Fin[of v 0 23] by simp

lemma clampInt_0_59: "clampInt (Fin v) (Fin 0) (Fin 59) = Fin (of_int (min 59 (max 0 (truncRat v))))"
  using clampInt_Fin[of v 0 59] by simp

lemma truncRat_toward_zero:
  "\<bar>of_int (truncRat h)\<bar> \<le> \<bar>h\<bar> \<and> \<bar>h - of_int (truncRat h)\<bar> < 1"
proof (cases "0 \<le> h")
  case True
  with floor_correct[of h] show ?thesis
    by (simp add: truncRat_def)
next
  case False
  with ceiling_correct[of h] show ?thesis
    by (simp add: truncRat_def)
qed

text \<open>
  C9. \<open>loadReminderSettings\<close> returns the defaults (disabled, 20:00, no
  notification id) when nothing is stored or the stored string does not parse. When the
  stored object has a number for \<open>hour\<close>, the hour it returns is that number
  truncated toward zero and then clamped into 0..23; likewise the minute, into 0..59.
  The truncation is toward zero: it never lies farther from zero than the number, and
  less than 1 from it.
\<close>

theorem loadReminderSettings_defaults_and_clamps:
  "(getItem st REMINDER_STORAGE_KEY = None \<longrightarrow> loadReminderSettings st = defaultSettings) \<and>
   (getItem st REMINDER_STORAGE_KEY = Some Malformed \<longrightarrow> loadReminderSettings st = defaultSettings) \<and>
   defaultSettings = \<lparr>enabled = False, hour = Fin 20, minute = Fin 0, notificationId = None\<rparr> \<and>
   (getItem st REMINDER_STORAGE_KEY = Some (Parsed parsed) \<and> getProp parsed ''hour'' = Some (JNum h) \<longrightarrow>
      hour (loadReminderSettings st) = Fin (of_int (min 23 (max 0 (truncRat h))))) \<and>
   (getItem st REMINDER_STORAGE_KEY = Some (Parsed parsed) \<and> getProp parsed ''minute'' = Some (JNum mi) \<longrightarrow>
      minute (loadReminderSettings st) = Fin (of_int (min 59 (max 0 (truncRat mi))))) \<and>
   \<bar>of_int (truncRat h)\<bar> \<le> \<bar>h\<bar> \<and> \<bar>h - of_int (truncRat h)\<bar> < 1"
proof -
  have hr: "hour (loadReminderSettings st) = Fin (of_int (min 23 (max 0 (truncRat h))))"
    if "getItem st REMINDER_STORAGE_KEY = Some (Parsed parsed)" "getProp parsed ''hour'' = Some (JNum h)"
  proof -
    from that(2) have "parsed \<noteq> JNull" by auto
    with that show ?thesis
      by (simp add: loadReminderSettings_def Let_def numProp_def clampInt_0_23)
  qed
  have mr: "minute (loadReminderSettings st) = Fin (of_int (min 59 (max 0 (truncRat mi))))"
    if "getItem st REMINDER_STORAGE_KEY = Some (Parsed parsed)" "getProp parsed ''minute'' = Some (JNum mi)"
  proof -
    from that(2) have "parsed \<noteq> JNull" by auto
    with that show ?thesis
      by (simp add: loadReminderSettings_def Let_def numProp_def clampInt_0_59)
  qed
  from hr mr truncRat_toward_zero[of h] show ?thesis
    by (simp add: loadReminderSettings_def defaultSettings_def)
qed

theorem loadReminderSettings_defaults_and_clamps_witness:
  "getItem (reminderStore None) REMINDER_STORAGE_KEY = None \<and>
   loadReminderSettings (reminderStore None) =
     \<lparr>enabled = False, hour = Fin 20, minute = Fin 0, notificationId = None\<rparr> \<and>
   getItem (reminderStore (Some Malformed)) REMINDER_STORAGE_KEY = Some Malformed \<and>
   loadReminderSettings (reminderStore (Some Malformed)) =
     \<lparr>enabled = False, hour = Fin 20, minute = Fin 0, notificationId = None\<rparr> \<and>
   getItem (reminderStore (Some (Parsed driftedSettingsJson))) REMINDER_STORAGE_KEY =
     Some (Parsed driftedSettingsJson) \<and>
   getProp driftedSettingsJson ''hour'' = Some (JNum (79 / 10)) \<and>
   getProp driftedSettingsJson ''minute'' = Some (JNum (- 9 / 10)) \<and>
   hour (loadReminderSettings (reminderStore (Some (Parsed driftedSettingsJson)))) = Fin 7 \<and>
   minute (loadReminderSettings (reminderStore (Some (Parsed driftedSettingsJson)))) = Fin 0"
proof -
  have a: "getItem (reminderStore None) REMINDER_STORAGE_KEY = None"
    by (simp add: getItem_def reminderStore_def)
  have b: "getItem (reminderStore (Some Malformed)) REMINDER_STORAGE_KEY = Some Malformed"
    by (simp add: getItem_def reminderStore_def)
  have c: "getItem (reminderStore (Some (Parsed driftedSettingsJson))) REMINDER_STORAGE_KEY =
     Some (Parsed driftedSettingsJson)"
    by (simp add: getItem_def reminderStore_def)
  have h: "getProp driftedSettingsJson ''hour'' = Some (JNum (79 / 10))"
    by (simp add: driftedSettingsJson_def)
  have m: "getProp driftedSettingsJson ''minute'' = Some (JNum (- 9 / 10))"
    by (simp add: driftedSettingsJson_def)
  have th: "truncRat (79 / 10) = 7"
    by (simp add: truncRat_def floor_eq_iff)
  have tm: "truncRat (- (9 / 10)) = 0"
    by (simp add: truncRat_def ceiling_eq_iff)
  note t1 = loadReminderSettings_defaults_and_clamps[of "reminderStore None"]
  note t2 = loadReminderSettings_defaults_and_clamps[of "reminderStore (Some Malformed)"]
  note t3 = loadReminderSettings_defaults_and_clamps[of "reminderStore (Some (Parsed driftedSettingsJson))"
      driftedSettingsJson "79 / 10" "- 9 / 10"]
  from t1 t2 t3 a b c h m show ?thesis
    by (simp add: th tm)
qed

section \<open>Lemmas on the scheduler\<close>

lemma clampInt_valid:
  assumes "integerIn lo hi v"
  shows "clampInt v (Fin (of_int lo)) (Fin (of_int hi)) = v"
proof -
  from assms obtain r where v: "v = Fin r" and i: "of_int (truncRat r) = r"
    and b: "of_int lo \<le> r" "r \<le> of_int hi"
    by (cases v) (auto simp: integerIn_def)
  from b i have "of_int lo \<le> (of_int (truncRat r) :: rat)" "(of_int (truncRat r) :: rat) \<le> of_int hi"
    by simp_all
  then have "lo \<le> truncRat r" "truncRat r \<le> hi"
    by (simp_all only: of_int_le_iff)
  then have "min hi (max lo (truncRat r)) = truncRat r"
    by simp
  then show ?thesis
    by (simp add: v clampInt_Fin i)
qed

lemma isReminderRequest_new: "isReminderRequest (newReminder s p)"
  by (simp add: isReminderRequest_def newReminder_def)

lemma schedule_resolves:
  assumes "rejecting p = {}"
  shows "scheduleAndAttach s p =
     (Resolved (s\<lparr>notificationId := Some (nextIdentifier p)\<rparr>), afterSchedule s p)"
  using assms
  by (simp add: scheduleAndAttach_def scheduleDailyReminder_def ensureAndroidChannel_def
      setNotificationChannelAsync_def scheduleNotificationAsync_def Let_def afterSchedule_def
      newReminder_def nextIdentifier_def)

lemma cancel_one:
  assumes "rejecting p = {}"
  shows "snd (cancelScheduledNotificationAsync p i) =
     p\<lparr>scheduled := filter (\<lambda>q. identifierOf q \<noteq> i) (scheduled p)\<rparr>"
  using assms by (simp add: cancelScheduledNotificationAsync_def)

lemma cancelEach_resolves:
  "rejecting p = {} \<Longrightarrow> cancelEach p reqs = afterCancel reqs p"
proof (induction reqs arbitrary: p)
  case Nil
  then show ?case by (simp add: cancelEach_def afterCancel_def)
next
  case (Cons r reqs)
  let ?p = "p\<lparr>scheduled := filter (\<lambda>q. identifierOf q \<noteq> identifierOf r) (scheduled p)\<rparr>"
  have "cancelEach p (r # reqs) = cancelEach ?p reqs"
    using Cons.prems by (simp add: cancelEach_def cancel_one)
  also have "\<dots> = afterCancel reqs ?p"
    using Cons.prems by (intro Cons.IH) simp
  also have "\<dots> = afterCancel (r # reqs) p"
    by (simp add: afterCancel_def conj_commute)
  finally show ?case .
qed

lemma cancelAll_resolves:
  assumes "rejecting p = {}"
  shows "cancelAllReminders p = (int (length (matching p)), afterCancel (matching p) p)"
  using assms
  by (simp add: cancelAllReminders_def getAllScheduledNotificationsAsync_def Let_def
      cancelEach_resolves matching_def)

lemma matching_afterSchedule: "matching (afterSchedule s p) = matching p @ [newReminder s p]"
  by (simp add: matching_def afterSchedule_def isReminderRequest_new)

lemma matching_afterCancel: "matching (afterCancel (matching p) p) = []"
  by (auto simp: matching_def afterCancel_def filter_empty_conv)

lemma newReminder_afterCancel: "newReminder s (afterCancel reqs p) = newReminder s p"
  by (simp add: newReminder_def afterCancel_def nextIdentifier_def)

lemma rejecting_afterCancel: "rejecting (afterCancel reqs p) = rejecting p"
  by (simp add: afterCancel_def)

lemma nextIdentifier_afterCancel: "nextIdentifier (afterCancel reqs p) = nextIdentifier p"
  by (simp add: afterCancel_def nextIdentifier_def)

lemma reconcile_disabled: "\<not> enabled s \<Longrightarrow> reconcileReminderSchedule s p = (Resolved s, p)"
  by (simp add: reconcileReminderSchedule_def)

lemma reconcile_not_granted:
  "enabled s \<Longrightarrow> rejecting p = {} \<Longrightarrow> \<not> granted p \<Longrightarrow>
     reconcileReminderSchedule s p = (Resolved s, p)"
  by (simp add: reconcileReminderSchedule_def hasReminderPermissions_def getPermissionsAsync_def)

lemma reconcile_granted:
  assumes "enabled s" "rejecting p = {}" "granted p"
  shows "reconcileReminderSchedule s p =
     (if length (matching p) = 0 then scheduleAndAttach s p
      else if length (matching p) = 1 then
        (if identifierOf (hd (matching p)) \<noteq> [] \<and> Some (identifierOf (hd (matching p))) \<noteq> notificationId s
         then (Resolved (s\<lparr>notificationId := Some (identifierOf (hd (matching p)))\<rparr>), p)
         else (Resolved s, p))
      else scheduleAndAttach s (afterCancel (matching p) p))"
  using assms
  by (simp add: reconcileReminderSchedule_def hasReminderPermissions_def getPermissionsAsync_def
      getAllScheduledNotificationsAsync_def Let_def matching_def[symmetric] cancelAll_resolves)

lemma reconcile_none:
  assumes "enabled s" "rejecting p = {}" "granted p" "matching p = []"
  shows "reconcileReminderSchedule s p =
     (Resolved (s\<lparr>notificationId := Some (nextIdentifier p)\<rparr>), afterSchedule s p)"
  using assms by (simp add: reconcile_granted schedule_resolves)

lemma reconcile_one:
  assumes "enabled s" "rejecting p = {}" "granted p" "matching p = [r]" "identifierOf r \<noteq> []"
  shows "reconcileReminderSchedule s p =
     (Resolved (if Some (identifierOf r) \<noteq> notificationId s
                then s\<lparr>notificationId := Some (identifierOf r)\<rparr> else s), p)"
  using assms by (simp add: reconcile_granted)

lemma two_or_more: "2 \<le> length xs \<Longrightarrow> \<exists>a b rest. xs = a # b # rest"
proof (cases xs)
  case Nil
  moreover assume "2 \<le> length xs"
  ultimately show ?thesis by simp
next
  case (Cons a t)
  moreover assume "2 \<le> length xs"
  ultimately show ?thesis by (cases t) simp_all
qed

lemma none_one_many: "xs = [] \<or> (\<exists>r. xs = [r]) \<or> 2 \<le> length xs"
proof (cases xs)
  case Nil
  then show ?thesis by simp
next
  case (Cons a t)
  then show ?thesis by (cases t) simp_all
qed

lemma reconcile_many:
  assumes "enabled s" "rejecting p = {}" "granted p" "2 \<le> length (matching p)"
  shows "reconcileReminderSchedule s p =
     (Resolved (s\<lparr>notificationId := Some (nextIdentifier p)\<rparr>),
      afterSchedule s (afterCancel (matching p) p))"
proof -
  from assms(4) obtain a b rest where "matching p = a # b # rest"
    using two_or_more by blast
  with assms(1-3) show ?thesis
    by (simp add: reconcile_granted schedule_resolves rejecting_afterCancel
        nextIdentifier_afterCancel)
qed

lemma reconcile_resolves:
  assumes "healthy p"
  shows "\<exists>s'. fst (reconcileReminderSchedule s p) = Resolved s'"
proof (cases "enabled s")
  case False
  then show ?thesis
    by (simp add: reconcile_disabled)
next
  case en: True
  show ?thesis
  proof (cases "granted p")
    case False
    with en assms show ?thesis
      by (simp add: reconcile_not_granted healthy_def)
  next
    case True
    with en assms show ?thesis
      by (simp add: reconcile_granted schedule_resolves rejecting_afterCancel healthy_def)
  qed
qed

lemma healthy_matching_ids:
  assumes "healthy p" "matching p = [r]"
  shows "identifierOf r \<noteq> []"
proof -
  have "r \<in> set (matching p)"
    by (simp add: assms(2))
  then have "r \<in> set (scheduled p)"
    by (simp add: matching_def)
  with assms(1) show ?thesis
    by (auto simp: healthy_def list_all_iff)
qed

text \<open>
  C4. \<open>reconcileReminderSchedule\<close> by cases. With the reminder disabled it returns
  the settings as they are and leaves the platform alone. With the reminder enabled, on a
  platform in working order: without the permission it returns the settings as they are;
  with no matching request it schedules a new daily reminder and returns the settings
  with the new identifier; with exactly one matching request it returns the settings with
  that request's identifier, which are the settings as they are when the identifier is
  already the stored one; with two or more it cancels every matching request, schedules
  one new reminder, which is then the only matching request, and returns the settings
  with the new identifier. The new reminder is at the hour and the minute of the
  settings when these are within 0..23 and 0..59.
\<close>

theorem reconcile_by_cases:
  "(\<not> enabled s \<longrightarrow> reconcileReminderSchedule s p = (Resolved s, p)) \<and>
   (enabled s \<and> healthy p \<and> \<not> granted p \<longrightarrow>
      reconcileReminderSchedule s p = (Resolved s, p)) \<and>
   (enabled s \<and> healthy p \<and> granted p \<and> matching p = [] \<longrightarrow>
      reconcileReminderSchedule s p =
        (Resolved (s\<lparr>notificationId := Some (nextIdentifier p)\<rparr>), afterSchedule s p)) \<and>
   (enabled s \<and> healthy p \<and> granted p \<and> matching p = [r] \<longrightarrow>
      reconcileReminderSchedule s p =
        (Resolved (if Some (identifierOf r) \<noteq> notificationId s
                   then s\<lparr>notificationId := Some (identifierOf r)\<rparr> else s), p)) \<and>
   (enabled s \<and> healthy p \<and> granted p \<and> 2 \<le> length (matching p) \<longrightarrow>
      reconcileReminderSchedule s p =
        (Resolved (s\<lparr>notificationId := Some (nextIdentifier p)\<rparr>),
         afterSchedule s (afterCancel (matching p) p)) \<and>
      matching (afterSchedule s (afterCancel (matching p) p)) = [newReminder s p]) \<and>
   scheduled (afterSchedule s p) = scheduled p @ [newReminder s p] \<and>
   identifierOf (newReminder s p) = nextIdentifier p \<and>
   (validTime s \<longrightarrow>
      map_option triggerHour (trigger (newReminder s p)) = Some (hour s) \<and>
      map_option triggerMinute (trigger (newReminder s p)) = Some (minute s))"
proof -
  have v: "map_option triggerHour (trigger (newReminder s p)) = Some (hour s) \<and>
      map_option triggerMinute (trigger (newReminder s p)) = Some (minute s)" if "validTime s"
    using that clampInt_valid[of 0 23 "hour s"] clampInt_valid[of 0 59 "minute s"]
    by (simp add: validTime_def newReminder_def)
  have m: "matching (afterSchedule s (afterCancel (matching p) p)) = [newReminder s p]"
    by (simp add: matching_afterSchedule matching_afterCancel newReminder_afterCancel)
  show ?thesis
    using v m healthy_matching_ids[of p r]
    by (auto simp: reconcile_disabled reconcile_not_granted reconcile_none reconcile_one
        reconcile_many healthy_def afterSchedule_def newReminder_def)
qed


lemma isReminderRequest_examples:
  "isReminderRequest (taggedReminder i)" "isReminderRequest (legacyReminder i)"
  "\<not> isReminderRequest (otherRequest i)"
  by (simp_all add: isReminderRequest_def taggedReminder_def legacyReminder_def otherRequest_def
      REMINDER_KIND_def LEGACY_TITLE_def LEGACY_BODY_def)

lemma identifierOf_examples:
  "identifierOf (taggedReminder i) = i" "identifierOf (legacyReminder i) = i"
  "identifierOf (otherRequest i) = i"
  by (simp_all add: taggedReminder_def legacyReminder_def otherRequest_def)

lemma platformWith_simps:
  "scheduled (platformWith g reqs) = reqs" "granted (platformWith g reqs) = g"
  "rejecting (platformWith g reqs) = {}" "nextIdentifier (platformWith g reqs) = ''n0''"
  "android (platformWith g reqs) = False"
  by (simp_all add: platformWith_def nextIdentifier_def showNat.simps digitChar_def)

lemma healthy_platformWith:
  "healthy (platformWith g reqs) = list_all (\<lambda>q. identifierOf q \<noteq> []) reqs"
  by (simp add: healthy_def platformWith_simps)

lemma reconcile_settled:
  assumes "enabled s" "rejecting q = {}" "granted q" "matching q = [r]" "identifierOf r \<noteq> []"
  shows "reconcileReminderSchedule (s\<lparr>notificationId := Some (identifierOf r)\<rparr>) q =
           (Resolved (s\<lparr>notificationId := Some (identifierOf r)\<rparr>), q)"
    and "reconcileReminderSchedule s q = (Resolved (s\<lparr>notificationId := Some (identifierOf r)\<rparr>), q)"
proof -
  show "reconcileReminderSchedule (s\<lparr>notificationId := Some (identifierOf r)\<rparr>) q =
           (Resolved (s\<lparr>notificationId := Some (identifierOf r)\<rparr>), q)"
    using assms by (simp add: reconcile_one)
  have "notificationId s = Some (identifierOf r) \<Longrightarrow> s\<lparr>notificationId := Some (identifierOf r)\<rparr> = s"
    by simp
  then show "reconcileReminderSchedule s q = (Resolved (s\<lparr>notificationId := Some (identifierOf r)\<rparr>), q)"
    using assms by (auto simp: reconcile_one)
qed

text \<open>What a run does when the reminder is enabled and permitted on a healthy platform.\<close>

lemma reconcile_active:
  assumes "healthy p" "enabled s" "granted p"
  shows "\<exists>r p1. reconcileReminderSchedule s p = (Resolved (s\<lparr>notificationId := Some (identifierOf r)\<rparr>), p1) \<and>
           matching p1 = [r] \<and> identifierOf r \<noteq> [] \<and> rejecting p1 = {} \<and> granted p1"
proof -
  from assms(1) have rej: "rejecting p = {}" and nid: "nextIdentifier p \<noteq> []"
    by (simp_all add: healthy_def)
  consider (none) "matching p = []" | (one) r where "matching p = [r]" | (many) "2 \<le> length (matching p)"
    using none_one_many[of "matching p"] by blast
  then show ?thesis
  proof cases
    case none
    let ?r = "newReminder s p"
    have "reconcileReminderSchedule s p = (Resolved (s\<lparr>notificationId := Some (identifierOf ?r)\<rparr>), afterSchedule s p)"
      using assms rej none by (simp add: reconcile_none newReminder_def)
    moreover have "matching (afterSchedule s p) = [?r]"
      using none by (simp add: matching_afterSchedule)
    moreover have "identifierOf ?r \<noteq> []"
      using nid by (simp add: newReminder_def)
    moreover have "rejecting (afterSchedule s p) = {}" "granted (afterSchedule s p)"
      using rej assms(3) by (simp_all add: afterSchedule_def)
    ultimately show ?thesis by blast
  next
    case one
    have id: "identifierOf r \<noteq> []"
      using assms(1) one by (rule healthy_matching_ids)
    have "reconcileReminderSchedule s p = (Resolved (s\<lparr>notificationId := Some (identifierOf r)\<rparr>), p)"
      using assms(2) rej assms(3) one id by (rule reconcile_settled(2))
    with one id rej assms(3) show ?thesis by blast
  next
    case many
    let ?r = "newReminder s p"
    let ?p1 = "afterSchedule s (afterCancel (matching p) p)"
    have "reconcileReminderSchedule s p = (Resolved (s\<lparr>notificationId := Some (identifierOf ?r)\<rparr>), ?p1)"
      using assms rej many by (simp add: reconcile_many newReminder_def)
    moreover have "matching ?p1 = [?r]"
      by (simp add: matching_afterSchedule matching_afterCancel newReminder_afterCancel)
    moreover have "identifierOf ?r \<noteq> []"
      using nid by (simp add: newReminder_def)
    moreover have "rejecting ?p1 = {}" "granted ?p1"
      using rej assms(3) by (simp_all add: afterSchedule_def afterCancel_def)
    ultimately show ?thesis by blast
  qed
qed

text \<open>
  C5, as amended. On a platform in working order a run resolves, and a second run,
  whether on the settings the first returned or on the same settings again, returns the
  settings of the first and leaves the platform as the first left it. When the reminder
  is enabled and permitted, exactly one matching request is scheduled after the run.
  Otherwise the run changes nothing, so duplicates that were scheduled remain. A run
  never brings the number of matching requests above the larger of 1 and what it was.
\<close>

theorem reconcile_idempotent:
  assumes "healthy p"
  shows "case reconcileReminderSchedule s p of
           (Rejected, p1) \<Rightarrow> False
         | (Resolved s1, p1) \<Rightarrow>
             reconcileReminderSchedule s1 p1 = (Resolved s1, p1) \<and>
             reconcileReminderSchedule s p1 = (Resolved s1, p1) \<and>
             (enabled s \<and> granted p \<longrightarrow> length (matching p1) = 1) \<and>
             (\<not> (enabled s \<and> granted p) \<longrightarrow> p1 = p \<and> s1 = s) \<and>
             length (matching p1) \<le> max 1 (length (matching p))"
proof (cases "enabled s \<and> granted p")
  case True
  with reconcile_active[OF assms, of s] obtain r p1 where
    run: "reconcileReminderSchedule s p = (Resolved (s\<lparr>notificationId := Some (identifierOf r)\<rparr>), p1)"
    and m: "matching p1 = [r]" and id: "identifierOf r \<noteq> []"
    and rej: "rejecting p1 = {}" and g: "granted p1"
    by blast
  from True have en: "enabled s" by simp
  note again = reconcile_settled[OF en rej g m id]
  from True show ?thesis
    by (simp add: run again m)
next
  case False
  have run: "reconcileReminderSchedule s p = (Resolved s, p)"
  proof (cases "enabled s")
    case True
    with False assms show ?thesis
      by (simp add: reconcile_not_granted healthy_def)
  next
    case False
    then show ?thesis
      by (rule reconcile_disabled)
  qed
  with False show ?thesis
    by auto
qed

text \<open>
  Against C5 as it is stated: with the reminder disabled, a run leaves two duplicate
  matching requests scheduled.
\<close>

theorem reconcile_leaves_duplicates_when_disabled:
  "length (matching (snd (reconcileReminderSchedule disabledSettings duplicatePlatform))) = 2"
  by (simp add: reconcile_disabled disabledSettings_def duplicatePlatform_def matching_def
      platformWith_simps isReminderRequest_examples)

lemma healthy_duplicatePlatform: "healthy duplicatePlatform"
  by (simp add: duplicatePlatform_def healthy_platformWith identifierOf_examples)

lemma matching_duplicatePlatform:
  "matching duplicatePlatform = [taggedReminder ''r1'', legacyReminder ''r2'']"
  by (simp add: duplicatePlatform_def matching_def platformWith_simps isReminderRequest_examples)

theorem reconcile_idempotent_witness:
  "healthy duplicatePlatform \<and>
   fst (reconcileReminderSchedule enabledSettings duplicatePlatform) =
     Resolved (enabledSettings\<lparr>notificationId := Some ''n0''\<rparr>) \<and>
   length (matching (snd (reconcileReminderSchedule enabledSettings duplicatePlatform))) = 1 \<and>
   reconcileReminderSchedule enabledSettings
       (snd (reconcileReminderSchedule enabledSettings duplicatePlatform)) =
     (Resolved (enabledSettings\<lparr>notificationId := Some ''n0''\<rparr>),
      snd (reconcileReminderSchedule enabledSettings duplicatePlatform))"
proof -
  have en: "enabled enabledSettings" "granted duplicatePlatform" "rejecting duplicatePlatform = {}"
    by (simp_all add: enabledSettings_def duplicatePlatform_def platformWith_simps)
  have two: "2 \<le> length (matching duplicatePlatform)"
    by (simp add: matching_duplicatePlatform)
  have run: "reconcileReminderSchedule enabledSettings duplicatePlatform =
      (Resolved (enabledSettings\<lparr>notificationId := Some ''n0''\<rparr>),
       afterSchedule enabledSettings (afterCancel (matching duplicatePlatform) duplicatePlatform))"
    using reconcile_many[OF en(1) en(3) en(2) two]
    by (simp add: duplicatePlatform_def platformWith_simps)
  from reconcile_idempotent[OF healthy_duplicatePlatform, of enabledSettings] en
  show ?thesis
    by (simp add: run healthy_duplicatePlatform)
qed


lemma validTime_enabledSettings: "validTime enabledSettings"
  by (simp add: validTime_def integerIn_def enabledSettings_def)

theorem reconcile_by_cases_witness:
  "reconcileReminderSchedule disabledSettings duplicatePlatform =
     (Resolved disabledSettings, duplicatePlatform) \<and>
   reconcileReminderSchedule enabledSettings (platformWith False [taggedReminder ''r1'']) =
     (Resolved enabledSettings, platformWith False [taggedReminder ''r1'']) \<and>
   reconcileReminderSchedule enabledSettings (platformWith True [otherRequest ''x1'']) =
     (Resolved (enabledSettings\<lparr>notificationId := Some ''n0''\<rparr>),
      afterSchedule enabledSettings (platformWith True [otherRequest ''x1''])) \<and>
   reconcileReminderSchedule enabledSettings
       (platformWith True [otherRequest ''x1'', legacyReminder ''r2'']) =
     (Resolved (enabledSettings\<lparr>notificationId := Some ''r2''\<rparr>),
      platformWith True [otherRequest ''x1'', legacyReminder ''r2'']) \<and>
   fst (reconcileReminderSchedule enabledSettings duplicatePlatform) =
     Resolved (enabledSettings\<lparr>notificationId := Some ''n0''\<rparr>) \<and>
   scheduled (snd (reconcileReminderSchedule enabledSettings duplicatePlatform)) =
     [otherRequest ''x1'', newReminder enabledSettings duplicatePlatform] \<and>
   map_option triggerHour (trigger (newReminder enabledSettings duplicatePlatform)) = Some (Fin 20) \<and>
   map_option triggerMinute (trigger (newReminder enabledSettings duplicatePlatform)) = Some (Fin 0)"
proof -
  let ?denied = "platformWith False [taggedReminder ''r1'']"
  let ?none = "platformWith True [otherRequest ''x1'']"
  let ?one = "platformWith True [otherRequest ''x1'', legacyReminder ''r2'']"
  have en: "enabled enabledSettings" "\<not> enabled disabledSettings"
    by (simp_all add: enabledSettings_def disabledSettings_def)
  have h: "healthy ?denied" "healthy ?none" "healthy ?one"
    by (simp_all add: healthy_platformWith identifierOf_examples)
  have m0: "matching ?none = []"
    by (simp add: matching_def platformWith_simps isReminderRequest_examples)
  have m1: "matching ?one = [legacyReminder ''r2'']"
    by (simp add: matching_def platformWith_simps isReminderRequest_examples)
  have c1: "reconcileReminderSchedule disabledSettings duplicatePlatform =
     (Resolved disabledSettings, duplicatePlatform)"
    using reconcile_by_cases[of disabledSettings duplicatePlatform] en by blast
  have c2: "reconcileReminderSchedule enabledSettings ?denied = (Resolved enabledSettings, ?denied)"
    using reconcile_by_cases[of enabledSettings ?denied] en h
    by (simp add: platformWith_simps)
  have c3: "reconcileReminderSchedule enabledSettings ?none =
     (Resolved (enabledSettings\<lparr>notificationId := Some ''n0''\<rparr>), afterSchedule enabledSettings ?none)"
    using reconcile_by_cases[of enabledSettings ?none] en h m0
    by (simp add: platformWith_simps)
  have c4: "reconcileReminderSchedule enabledSettings ?one =
     (Resolved (enabledSettings\<lparr>notificationId := Some ''r2''\<rparr>), ?one)"
    using reconcile_by_cases[of enabledSettings ?one "legacyReminder ''r2''"] en h m1
    by (simp add: platformWith_simps identifierOf_examples enabledSettings_def)
  have c5: "reconcileReminderSchedule enabledSettings duplicatePlatform =
     (Resolved (enabledSettings\<lparr>notificationId := Some ''n0''\<rparr>),
      afterSchedule enabledSettings (afterCancel (matching duplicatePlatform) duplicatePlatform))"
    using reconcile_by_cases[of enabledSettings duplicatePlatform] en healthy_duplicatePlatform
    by (simp add: matching_duplicatePlatform) (simp add: duplicatePlatform_def platformWith_simps)
  have c6: "scheduled (afterSchedule enabledSettings (afterCancel (matching duplicatePlatform) duplicatePlatform)) =
     [otherRequest ''x1'', newReminder enabledSettings duplicatePlatform]"
  proof -
    have sched: "scheduled duplicatePlatform =
        [taggedReminder ''r1'', otherRequest ''x1'', legacyReminder ''r2'']"
      by (simp add: duplicatePlatform_def platformWith_simps)
    have "scheduled (afterCancel (matching duplicatePlatform) duplicatePlatform) = [otherRequest ''x1'']"
      by (simp add: afterCancel_def matching_duplicatePlatform sched identifierOf_examples)
    then show ?thesis
      by (simp add: afterSchedule_def newReminder_afterCancel)
  qed
  have c7: "map_option triggerHour (trigger (newReminder enabledSettings duplicatePlatform)) = Some (Fin 20) \<and>
     map_option triggerMinute (trigger (newReminder enabledSettings duplicatePlatform)) = Some (Fin 0)"
    using reconcile_by_cases[of enabledSettings duplicatePlatform] validTime_enabledSettings
    by (simp add: enabledSettings_def)
  from c1 c2 c3 c4 c5 c6 c7 show ?thesis
    by simp
qed

section \<open>Lemmas on the calendar\<close>

lemma div_lo: "0 < b \<Longrightarrow> b * (x div b) \<le> (x::int)"
  using mult_div_mod_eq[of b x] pos_mod_sign[of b x] by linarith

lemma div_hi: "0 < b \<Longrightarrow> x - (b - 1) \<le> b * (x div (b::int))"
  using mult_div_mod_eq[of b x] pos_mod_bound[of b x] by linarith

lemma dayFromYear_upper: "400 * dayFromYear (1970 + k) \<le> 146097 * k + 589"
proof -
  define a where "a = (1970 + k - 1969) div 4"
  define b where "b = (1970 + k - 1901) div 100"
  define c where "c = (1970 + k - 1601) div 400"
  have d: "dayFromYear (1970 + k) = 365 * k + a - b + c"
    by (simp add: dayFromYear_def a_def b_def c_def)
  have "4 * a \<le> k + 1" "k + 69 - 99 \<le> 100 * b" "400 * c \<le> k + 369"
    unfolding a_def b_def c_def
    using div_lo[of 4 "1970 + k - 1969"] div_hi[of 100 "1970 + k - 1901"]
      div_lo[of 400 "1970 + k - 1601"] by simp_all
  then show ?thesis unfolding d by (simp add: algebra_simps)
qed

lemma dayFromYear_lower: "146097 * k - 696 \<le> 400 * dayFromYear (1970 + k)"
proof -
  define a where "a = (1970 + k - 1969) div 4"
  define b where "b = (1970 + k - 1901) div 100"
  define c where "c = (1970 + k - 1601) div 400"
  have d: "dayFromYear (1970 + k) = 365 * k + a - b + c"
    by (simp add: dayFromYear_def a_def b_def c_def)
  have "k + 1 - 3 \<le> 4 * a" "100 * b \<le> k + 69" "k + 369 - 399 \<le> 400 * c"
    unfolding a_def b_def c_def
    using div_hi[of 4 "1970 + k - 1969"] div_lo[of 100 "1970 + k - 1901"]
      div_hi[of 400 "1970 + k - 1601"] by simp_all
  then show ?thesis unfolding d by (simp add: algebra_simps)
qed

lemma yearFromDay_bracket:
  "dayFromYear (yearFromDay n) \<le> n \<and> n < dayFromYear (yearFromDay n + 1)"
proof -
  define q where "q = (400 * n) div 146097"
  have q: "146097 * q \<le> 400 * n" "400 * n < 146097 * q + 146097"
    unfolding q_def
    using div_lo[of 146097 "400 * n"] div_hi[of 146097 "400 * n"] by simp_all
  have y: "yearFromDay n =
      (if n < dayFromYear (1970 + q) then 1970 + q - 1
       else if dayFromYear (1970 + q + 1) \<le> n then 1970 + q + 1 else 1970 + q)"
    by (simp add: yearFromDay_def q_def Let_def)
  have lo: "dayFromYear (1970 + (q - 1)) \<le> n"
    using dayFromYear_upper[of "q - 1"] q by (simp add: algebra_simps)
  have hi: "n < dayFromYear (1970 + (q + 2))"
    using dayFromYear_lower[of "q + 2"] q by (simp add: algebra_simps)
  have e1: "1970 + q - 1 = 1970 + (q - 1)" "1970 + q - 1 + 1 = 1970 + q"
    "1970 + q + 1 + 1 = 1970 + (q + 2)"
    by simp_all
  show ?thesis
    using lo hi unfolding y by (auto simp: e1)
qed


lemma yearFromDay_epoch:
  assumes "0 \<le> n"
  shows "1970 \<le> yearFromDay n"
proof (rule ccontr)
  assume "\<not> 1970 \<le> yearFromDay n"
  then consider "yearFromDay n + 1 = 1970" | "yearFromDay n + 1 - 1970 \<le> - 1"
    by linarith
  then have "dayFromYear (yearFromDay n + 1) \<le> 0"
  proof cases
    case 1
    then show ?thesis by (simp add: dayFromYear_def)
  next
    case 2
    have "400 * dayFromYear (1970 + (yearFromDay n + 1 - 1970)) \<le>
        146097 * (yearFromDay n + 1 - 1970) + 589"
      by (rule dayFromYear_upper)
    with 2 have "400 * dayFromYear (yearFromDay n + 1) \<le> 0"
      by (simp add: algebra_simps)
    then show ?thesis by simp
  qed
  moreover have "n < dayFromYear (yearFromDay n + 1)"
    using yearFromDay_bracket by simp
  ultimately show False using assms by linarith
qed

lemma monthFromDay_range: "0 \<le> monthFromDay n \<and> monthFromDay n \<le> 11"
  by (simp add: monthFromDay_def Let_def)

lemma inLeapYear_range: "0 \<le> inLeapYear y \<and> inLeapYear y \<le> 1"
  by (simp add: inLeapYear_def)

lemma dateFromDay_pos: "1 \<le> dateFromDay n"
proof -
  have "0 \<le> dayWithinYear n"
    using yearFromDay_bracket[of n] by (simp add: dayWithinYear_def)
  then show ?thesis
    using inLeapYear_range[of "yearFromDay n"]
    by (auto simp: dateFromDay_def monthFromDay_def daysBeforeMonth_def Let_def)
qed

lemma makeDay_same_month:
  "makeDay (Fin (of_int (yearFromDay n))) (Fin (of_int (monthFromDay n))) (Fin r) =
     Some (n - dateFromDay n + truncRat r)"
proof -
  have "monthFromDay n div 12 = 0" "monthFromDay n mod 12 = monthFromDay n"
    using monthFromDay_range[of n] by simp_all
  then show ?thesis
    by (simp add: makeDay_def Let_def dateFromDay_def dayWithinYear_def)
qed

lemma dayOf_makeDate: "0 \<le> t \<Longrightarrow> t < msPerDay \<Longrightarrow> dayOf (makeDate n t) = n"
  by (simp add: dayOf_def makeDate_def msPerDay_def)

lemma makeDate_split: "makeDate (dayOf t) (timeWithinDay t) = t"
  by (simp add: makeDate_def dayOf_def timeWithinDay_def)

lemma newDate_civil:
  assumes "\<not> yearFromDay n \<le> 99"
  shows "newDate z (Fin (of_int (yearFromDay n))) (Fin (of_int (monthFromDay n)))
           (Fin (of_int (dateFromDay n))) = startOfDay z n"
  using assms by (simp add: newDate_def Let_def makeDay_same_month startOfDay_def midnight_def)

lemma newDate_shape:
  "newDate z y m d = InvalidDate \<or> (\<exists>n. newDate z y m d = TimeValue (midnight z n))"
  by (cases "makeDay (case y of
        Fin r \<Rightarrow> (let yi = truncRat r in if 0 \<le> yi \<and> yi \<le> 99 then Fin (of_int (1900 + yi)) else y)
      | _ \<Rightarrow> y) m d")
    (auto simp: newDate_def timeClip_def midnight_def Let_def)

text \<open>What a regular zone gives.\<close>

lemma regular_day: "regularZone z \<Longrightarrow> localDay z (midnight z n) = n"
  by (simp add: regularZone_def)

lemma regular_back: "regularZone z \<Longrightarrow> toUTC z (toLocal z (midnight z n)) = midnight z n"
  by (simp add: regularZone_def)

lemma regular_less: "regularZone z \<Longrightarrow> a < b \<Longrightarrow> midnight z a < midnight z b"
  by (simp add: regularZone_def)

lemma regular_le_iff:
  assumes "regularZone z"
  shows "midnight z a \<le> midnight z b \<longleftrightarrow> a \<le> b"
proof
  assume "midnight z a \<le> midnight z b"
  show "a \<le> b"
  proof (rule ccontr)
    assume "\<not> a \<le> b"
    then have "midnight z b < midnight z a"
      using assms by (intro regular_less) simp_all
    with \<open>midnight z a \<le> midnight z b\<close> show False by simp
  qed
next
  assume "a \<le> b"
  then have "a = b \<or> a < b" by linarith
  then show "midnight z a \<le> midnight z b"
    using regular_less[OF assms, of a b] by auto
qed

lemma regular_start: "regularZone z \<Longrightarrow> midnight z (localDay z t) \<le> t"
  by (simp add: regularZone_def)

lemma regular_near: "regularZone z \<Longrightarrow> \<bar>midnight z n - makeDate n 0\<bar> \<le> msPerDay"
  by (simp add: regularZone_def)

lemma midnight_in_range:
  assumes "regularZone z" "- 99999999 \<le> n" "midnight z n \<le> 8640000000000000"
  shows "timeClip (Some (midnight z n)) = TimeValue (midnight z n)"
proof -
  have "- 8640000000000000 \<le> makeDate n 0 - msPerDay"
    using assms(2) by (simp add: makeDate_def msPerDay_def)
  moreover have "makeDate n 0 - msPerDay \<le> midnight z n"
    using regular_near[OF assms(1), of n] by linarith
  ultimately have "\<bar>midnight z n\<bar> \<le> 8640000000000000"
    using assms(3) by linarith
  then show ?thesis
    by (simp add: timeClip_def)
qed

lemma startOfDay_today:
  assumes "regularZone z" "0 \<le> localDay z now" "now \<le> 8640000000000000"
  shows "startOfDay z (localDay z now) = TimeValue (midnight z (localDay z now))"
proof -
  have "midnight z (localDay z now) \<le> 8640000000000000"
    using regular_start[OF assms(1), of now] assms(3) by linarith
  then show ?thesis
    unfolding startOfDay_def using assms(1,2) by (intro midnight_in_range) simp_all
qed

lemma newDate_of_now:
  assumes "0 \<le> localDay z now"
  shows "newDate z (getFullYear z (TimeValue now)) (getMonth z (TimeValue now))
           (getDate z (TimeValue now)) = startOfDay z (localDay z now)"
proof -
  have "1970 \<le> yearFromDay (localDay z now)"
    using assms by (rule yearFromDay_epoch)
  then have "\<not> yearFromDay (localDay z now) \<le> 99" by simp
  then show ?thesis
    using newDate_civil[of "localDay z now" z]
    by (simp add: getFullYear_def getMonth_def getDate_def localDay_def)
qed

text \<open>
  \<open>setDate\<close> on the start of a day: the receiver stands in the day \<open>n\<close>, and the new
  date has the receiver's local time within the day.
\<close>

lemma setDate_start:
  assumes "regularZone z"
  shows "setDate z (TimeValue (midnight z n)) (jsSub (getDate z (TimeValue (midnight z n))) (Fin (of_int k))) =
     timeClip (Some (toUTC z (makeDate (n - k) (timeWithinDay (toLocal z (midnight z n))))))"
proof -
  have d: "dayOf (toLocal z (midnight z n)) = n"
    using regular_day[OF assms, of n] by (simp add: localDay_def)
  have "jsSub (getDate z (TimeValue (midnight z n))) (Fin (of_int k)) =
      Fin (of_int (dateFromDay n - k))"
    by (simp add: getDate_def d)
  moreover have "setDate z (TimeValue (midnight z n)) (Fin (of_int (dateFromDay n - k))) =
      timeClip (Some (toUTC z (makeDate (n - k) (timeWithinDay (toLocal z (midnight z n))))))"
    by (simp only: setDate_def Date.case Let_def d makeDay_same_month truncRat_of_int) simp
  ultimately show ?thesis by simp
qed

lemma purgeCutoff_at_most_one:
  assumes "regularZone z" "0 \<le> localDay z now" "now \<le> 8640000000000000" "jsGe (Fin 1) days"
  shows "purgeCutoff z now days = TimeValue (midnight z (localDay z now))"
proof -
  let ?n = "localDay z now"
  have k: "jsSub (mathMax (Fin 1) days) (Fin 1) = Fin (of_int 0)"
    using assms(4) by (cases days) (simp_all add: max_def)
  have s: "startOfDay z ?n = TimeValue (midnight z ?n)"
    using assms(1-3) by (rule startOfDay_today)
  have "makeDate (?n - 0) (timeWithinDay (toLocal z (midnight z ?n))) = toLocal z (midnight z ?n)"
    using makeDate_split[of "toLocal z (midnight z ?n)"] regular_day[OF assms(1), of ?n]
    by (simp add: localDay_def)
  then have "setDate z (TimeValue (midnight z ?n))
      (jsSub (getDate z (TimeValue (midnight z ?n))) (Fin (of_int 0))) = TimeValue (midnight z ?n)"
    using s by (simp only: setDate_start[OF assms(1)] regular_back[OF assms(1)] startOfDay_def)
  then show ?thesis
    by (simp only: purgeCutoff_def Let_def newDate_of_now[OF assms(2)] s k)
qed

lemma purgeCutoff_integer:
  assumes "regularZone z" "midnightExists z (localDay z now)" "0 \<le> localDay z now"
    "now \<le> 8640000000000000" "days \<le> 100000000"
  shows "purgeCutoff z now (Fin (of_int days)) =
     TimeValue (midnight z (localDay z now - (max 1 days - 1)))"
proof -
  let ?n = "localDay z now" and ?k = "max 1 days - 1"
  have k: "jsSub (mathMax (Fin 1) (Fin (of_int days))) (Fin 1) = Fin (of_int ?k)"
    by (simp add: max_def)
  have s: "startOfDay z ?n = TimeValue (midnight z ?n)"
    using assms(1,3,4) by (rule startOfDay_today)
  have "timeWithinDay (toLocal z (midnight z ?n)) = 0"
    using assms(2) by (simp add: midnightExists_def timeWithinDay_def makeDate_def)
  then have m: "toUTC z (makeDate (?n - ?k) (timeWithinDay (toLocal z (midnight z ?n)))) =
      midnight z (?n - ?k)"
    by (simp add: midnight_def)
  have "midnight z (?n - ?k) \<le> midnight z ?n"
    using regular_le_iff[OF assms(1), of "?n - ?k" ?n] by simp
  moreover have "midnight z ?n \<le> now"
    using assms(1) by (rule regular_start)
  ultimately have "midnight z (?n - ?k) \<le> 8640000000000000"
    using assms(4) by linarith
  moreover have "- 99999999 \<le> ?n - ?k"
    using assms(3,5) by (simp add: max_def)
  ultimately have "timeClip (Some (midnight z (?n - ?k))) = TimeValue (midnight z (?n - ?k))"
    using assms(1) by (intro midnight_in_range)
  then have "setDate z (TimeValue (midnight z ?n))
      (jsSub (getDate z (TimeValue (midnight z ?n))) (Fin (of_int ?k))) =
      TimeValue (midnight z (?n - ?k))"
    by (simp only: setDate_start[OF assms(1)] m)
  then show ?thesis
    by (simp only: purgeCutoff_def Let_def newDate_of_now[OF assms(3)] s k)
qed

text \<open>The two example zones are regular.\<close>

lemma regular_utc: "regularZone utcZone"
proof -
  have "midnight utcZone (localDay utcZone t) \<le> t" for t
    using div_lo[of 86400000 t]
    by (simp add: midnight_def localDay_def dayOf_def makeDate_def msPerDay_def mult.commute)
  then show ?thesis
    by (simp add: regularZone_def localDay_def midnight_def dayOf_def makeDate_def msPerDay_def)
qed

lemma toLocal_cairo:
  "toLocal cairoZone t =
     (if 1714082400000 \<le> t \<and> t < 1730408400000 then t + 10800000 else t + 7200000)"
  by (simp add: cairoZone_def)

lemma toUTC_cairo:
  "toUTC cairoZone l =
     (if l < 1714093200000 then l - 7200000
      else if l < 1730419200000 then l - 10800000 else l - 7200000)"
  by (simp add: cairoZone_def)

lemma midnight_cairo:
  "midnight cairoZone n =
     (if n \<le> 19839 then n * 86400000 - 7200000
      else if n \<le> 20027 then n * 86400000 - 10800000
      else n * 86400000 - 7200000)"
  by (simp add: midnight_def toUTC_cairo makeDate_def msPerDay_def)

lemma toLocal_midnight_cairo:
  "toLocal cairoZone (midnight cairoZone n) =
     (if n = 19839 then 1714093200000 else n * 86400000)"
proof -
  consider "n \<le> 19838" | "n = 19839" | "19840 \<le> n" "n \<le> 20027" | "20028 \<le> n"
    by linarith
  then show ?thesis
    by cases (simp_all add: midnight_cairo toLocal_cairo)
qed

lemma regular_cairo: "regularZone cairoZone"
proof -
  have day: "localDay cairoZone (midnight cairoZone n) = n" for n
    by (simp add: localDay_def toLocal_midnight_cairo dayOf_def msPerDay_def)
  have inv: "toUTC cairoZone (toLocal cairoZone (midnight cairoZone n)) = midnight cairoZone n" for n
  proof (cases "n = 19839")
    case True
    have "toUTC cairoZone (toLocal cairoZone (midnight cairoZone n)) = toUTC cairoZone 1714093200000"
      using True by (simp only: toLocal_midnight_cairo) simp
    also have "\<dots> = midnight cairoZone n"
      using True by (simp add: toUTC_cairo midnight_cairo)
    finally show ?thesis .
  next
    case False
    then have "toLocal cairoZone (midnight cairoZone n) = makeDate n 0"
      by (simp add: toLocal_midnight_cairo makeDate_def msPerDay_def)
    then show ?thesis
      by (simp add: midnight_def)
  qed
  have less: "midnight cairoZone a < midnight cairoZone b" if "a < b" for a b
    using that by (simp add: midnight_cairo)
  have near: "\<bar>midnight cairoZone n - makeDate n 0\<bar> \<le> msPerDay" for n
    by (simp add: midnight_cairo makeDate_def msPerDay_def)
  have start: "midnight cairoZone (localDay cairoZone t) \<le> t" for t
  proof (cases "1714082400000 \<le> t \<and> t < 1730408400000")
    case True
    define q where "q = (t + 10800000) div 86400000"
    have q: "86400000 * q \<le> t + 10800000" "t + 10800000 - 86399999 \<le> 86400000 * q"
      unfolding q_def using div_lo[of 86400000 "t + 10800000"] div_hi[of 86400000 "t + 10800000"]
      by simp_all
    have l: "localDay cairoZone t = q"
      using True by (simp add: localDay_def toLocal_cairo dayOf_def msPerDay_def q_def)
    have "19839 \<le> q" "q \<le> 20027"
      using q True by linarith+
    then show ?thesis
      using q True unfolding l by (simp add: midnight_cairo)
  next
    case False
    define q where "q = (t + 7200000) div 86400000"
    have q: "86400000 * q \<le> t + 7200000"
      unfolding q_def using div_lo[of 86400000 "t + 7200000"] by simp
    have l: "localDay cairoZone t = q"
      using False by (auto simp: localDay_def toLocal_cairo dayOf_def msPerDay_def q_def)
    show ?thesis
      using q unfolding l by (simp add: midnight_cairo)
  qed
  from day inv less start near show ?thesis
    unfolding regularZone_def by blast
qed

lemma midnight_skipped_cairo: "\<not> midnightExists cairoZone 19839"
  by (simp add: midnightExists_def toLocal_midnight_cairo makeDate_def msPerDay_def)

lemma midnight_exists_utc: "midnightExists utcZone n"
  by (simp add: midnightExists_def midnight_def)

section \<open>Lemmas on date keys\<close>

lemma digitChar_props:
  assumes "d < 10"
  shows "isDigit (digitChar d)" "digitValue (digitChar d) = d" "digitChar d \<noteq> CHR ''-''"
proof -
  from assms have "d = 0 \<or> d = 1 \<or> d = 2 \<or> d = 3 \<or> d = 4 \<or> d = 5 \<or> d = 6 \<or>
      d = 7 \<or> d = 8 \<or> d = 9"
    by arith
  then show "isDigit (digitChar d)" "digitValue (digitChar d) = d" "digitChar d \<noteq> CHR ''-''"
    by (elim disjE; simp add: digitChar_def isDigit_def digitValue_def)+
qed

lemma showNat_digits: "list_all isDigit (showNat n) \<and> showNat n \<noteq> []"
proof (induction n rule: showNat.induct)
  case (1 n)
  show ?case
  proof (cases "n < 10")
    case True
    then show ?thesis
      by (subst showNat.simps, subst (2) showNat.simps) (simp add: digitChar_props)
  next
    case False
    with 1 have "list_all isDigit (showNat (n div 10))" by simp
    moreover have "isDigit (digitChar (n mod 10))"
      by (simp add: digitChar_props)
    ultimately show ?thesis
      using False by (subst showNat.simps, subst (2) showNat.simps) simp
  qed
qed

lemma digitsValue_snoc: "digitsValue r (ds @ [c]) = r * digitsValue r ds + digitValue c"
  by (simp add: digitsValue_def)

lemma digitsValue_showNat: "digitsValue 10 (showNat n) = n"
proof (induction n rule: showNat.induct)
  case (1 n)
  show ?case
  proof (cases "n < 10")
    case True
    then show ?thesis
      by (subst showNat.simps) (simp add: digitsValue_def digitChar_props)
  next
    case False
    with 1 have "digitsValue 10 (showNat (n div 10)) = n div 10" by simp
    then show ?thesis
      using False by (subst showNat.simps) (simp add: digitsValue_snoc digitChar_props)
  qed
qed

lemma digitsValue_zeros: "digitsValue 10 (replicate k CHR ''0'' @ ds) = digitsValue 10 ds"
proof -
  have z: "digitValue CHR ''0'' = 0"
    by (simp add: digitValue_def)
  have "foldl (\<lambda>a c. 10 * a + digitValue c) 0 (replicate k CHR ''0'') = 0"
    by (induction k) (simp_all add: z)
  then show ?thesis
    by (simp add: digitsValue_def)
qed

lemma isDigit_not_space: "isDigit c \<Longrightarrow> \<not> isWhiteSpace c"
  by (auto simp: isDigit_def isWhiteSpace_def)

lemma trim_digits:
  assumes "list_all isDigit s"
  shows "trim s = s"
proof (cases s)
  case Nil
  then show ?thesis by (simp add: trim_def)
next
  case (Cons c cs)
  with assms have a: "\<not> isWhiteSpace (hd s)"
    by (simp add: isDigit_not_space)
  from Cons assms have b: "\<not> isWhiteSpace (hd (rev s))"
    by (metis isDigit_not_space hd_rev last_in_set list.distinct(1) list_all_iff)
  from Cons a have "dropWhile isWhiteSpace s = s"
    by simp
  moreover from Cons b have "dropWhile isWhiteSpace (rev s) = rev s"
    by (cases "rev s") simp_all
  ultimately show ?thesis
    by (simp add: trim_def)
qed

lemma isDigit_simps:
  assumes "isDigit c"
  shows "c \<noteq> CHR ''x''" "c \<noteq> CHR ''X''" "c \<noteq> CHR ''o''" "c \<noteq> CHR ''O''"
    "c \<noteq> CHR ''b''" "c \<noteq> CHR ''B''" "c \<noteq> CHR ''+''" "c \<noteq> CHR ''-''" "c \<noteq> CHR ''I''"
  using assms by (auto simp: isDigit_def)

lemma Number_digits:
  assumes "s \<noteq> []" "list_all isDigit s"
  shows "Number s = Fin (of_nat (digitsValue 10 s))"
proof -
  from assms obtain c cs where s: "s = c # cs" and c: "isDigit c" and cs: "list_all isDigit cs"
    by (cases s) auto
  have nd: "parseNonDecimal s = None"
  proof (cases cs)
    case Nil
    with s show ?thesis by (simp add: parseNonDecimal_def)
  next
    case (Cons p ds)
    with cs have "isDigit p" by simp
    with s Cons show ?thesis
      by (simp add: parseNonDecimal_def isDigit_simps)
  qed
  have inf: "s \<noteq> ''Infinity''"
    using s c by (auto simp: isDigit_simps)
  have tw: "takeWhile isDigit s = s" "dropWhile isDigit s = []"
    using assms(2) by (simp_all add: list_all_iff)
  have "parseUnsignedDecimal s = Fin (of_nat (digitsValue 10 s))"
    using assms(1) inf by (simp add: parseUnsignedDecimal_def tw digitsValue_def)
  then have "parseDecimal s = Fin (of_nat (digitsValue 10 s))"
    using s c by (simp add: parseDecimal_def isDigit_simps)
  then show ?thesis
    using assms(1) by (simp add: Number_def trim_digits[OF assms(2)] nd)
qed

lemma Number_showNat: "Number (showNat n) = Fin (of_nat n)"
  using showNat_digits[of n] by (simp add: Number_digits digitsValue_showNat)

lemma Number_padded: "Number (padStart (showNat n) 2 CHR ''0'') = Fin (of_nat n)"
proof -
  let ?k = "2 - length (showNat n)"
  have "isDigit CHR ''0''" by (simp add: isDigit_def)
  then have "list_all isDigit (replicate ?k CHR ''0'' @ showNat n)"
    using showNat_digits[of n] by (auto simp: list_all_iff)
  moreover have "replicate ?k CHR ''0'' @ showNat n \<noteq> []"
    using showNat_digits[of n] by simp
  ultimately show ?thesis
    by (simp add: padStart_def Number_digits digitsValue_zeros digitsValue_showNat)
qed

lemma splitOn_single: "sep \<notin> set a \<Longrightarrow> splitOn sep a = [a]"
  by (induction a) auto

lemma splitOn_first: "sep \<notin> set a \<Longrightarrow> splitOn sep (a @ sep # rest) = a # splitOn sep rest"
  by (induction a) auto

lemma splitOn_nonempty: "splitOn sep s \<noteq> []"
  by (induction s) (auto split: list.splits)

lemma digits_no_hyphen: "list_all isDigit s \<Longrightarrow> CHR ''-'' \<notin> set s"
  by (auto simp: list_all_iff isDigit_def)


lemma padded_digits:
  "list_all isDigit (padStart (showNat n) 2 CHR ''0'')"
proof -
  have "isDigit CHR ''0''" by (simp add: isDigit_def)
  then show ?thesis
    using showNat_digits[of n] by (auto simp: padStart_def list_all_iff)
qed

lemma numToString_nat: "0 \<le> i \<Longrightarrow> numToString (Fin (of_int i)) = showNat (nat i)"
  by (simp add: numToString_def showInt_def)

lemma getLocalDateKey_shape:
  assumes "0 \<le> yearFromDay (localDay z t)"
  shows "getLocalDateKey z (TimeValue t) =
     showNat (nat (yearFromDay (localDay z t))) @ CHR ''-'' #
       padStart (showNat (nat (monthFromDay (localDay z t) + 1))) 2 CHR ''0'' @ CHR ''-'' #
       padStart (showNat (nat (dateFromDay (localDay z t)))) 2 CHR ''0''"
proof -
  let ?n = "localDay z t"
  have m: "0 \<le> monthFromDay ?n + 1"
    using monthFromDay_range[of ?n] by simp
  have d: "0 \<le> dateFromDay ?n"
    using dateFromDay_pos[of ?n] by simp
  have m1: "jsAdd1 (Fin (of_int (monthFromDay ?n))) = Fin (of_int (monthFromDay ?n + 1))"
    by simp
  show ?thesis
    unfolding getLocalDateKey_def getFullYear_def getMonth_def getDate_def Date.case Let_def
      localDay_def[symmetric] m1 numToString_nat[OF assms] numToString_nat[OF m]
      numToString_nat[OF d]
    by simp
qed

lemma localDateFromDateKey_three:
  assumes "a \<noteq> []" "list_all isDigit a" "b \<noteq> []" "list_all isDigit b" "c \<noteq> []" "list_all isDigit c"
  shows "localDateFromDateKey z (a @ CHR ''-'' # b @ CHR ''-'' # c) =
     newDate z (Fin (of_nat (digitsValue 10 a))) (Fin (of_nat (digitsValue 10 b) - 1))
       (Fin (of_nat (digitsValue 10 c)))"
proof -
  have "splitOn CHR ''-'' (a @ CHR ''-'' # b @ CHR ''-'' # c) = [a, b, c]"
    using assms by (simp add: splitOn_first splitOn_single digits_no_hyphen)
  then show ?thesis
    using assms
    by (simp add: localDateFromDateKey_def Let_def nthOpt_def nullish_def toNumber_def
        Number_digits)
qed

lemma dateKey_roundtrip:
  assumes "100 \<le> yearFromDay (localDay z t)"
  shows "localDateFromDateKey z (getLocalDateKey z (TimeValue t)) = startOfDay z (localDay z t)"
proof -
  let ?n = "localDay z t"
  let ?y = "nat (yearFromDay ?n)" and ?m = "nat (monthFromDay ?n + 1)" and ?d = "nat (dateFromDay ?n)"
  have y: "0 \<le> yearFromDay ?n"
    using assms by simp
  have m: "0 \<le> monthFromDay ?n"
    using monthFromDay_range[of ?n] by simp
  have d: "0 \<le> dateFromDay ?n"
    using dateFromDay_pos[of ?n] by simp
  have pad: "padStart (showNat k) 2 CHR ''0'' \<noteq> []" for k
    using showNat_digits[of k] by (simp add: padStart_def)
  have dv: "digitsValue 10 (padStart (showNat k) 2 CHR ''0'') = k" for k
    by (simp add: padStart_def digitsValue_zeros digitsValue_showNat)
  have "localDateFromDateKey z (getLocalDateKey z (TimeValue t)) =
      newDate z (Fin (of_nat ?y)) (Fin (of_nat ?m - 1)) (Fin (of_nat ?d))"
    unfolding getLocalDateKey_shape[OF y]
    using localDateFromDateKey_three[of "showNat ?y" "padStart (showNat ?m) 2 CHR ''0''"
        "padStart (showNat ?d) 2 CHR ''0''"] showNat_digits[of ?y] padded_digits pad
    by (simp add: dv digitsValue_showNat)
  also have "(of_nat ?y :: rat) = of_int (yearFromDay ?n)"
    using y by simp
  also have "(of_nat ?m :: rat) - 1 = of_int (monthFromDay ?n)"
    using m by simp
  also have "(of_nat ?d :: rat) = of_int (dateFromDay ?n)"
    using d by simp
  also have "newDate z (Fin (of_int (yearFromDay ?n))) (Fin (of_int (monthFromDay ?n)))
      (Fin (of_int (dateFromDay ?n))) = startOfDay z ?n"
    using assms by (intro newDate_civil) simp
  finally show ?thesis .
qed

section \<open>Properties of the retention and of the date keys\<close>

lemma localDateFromDateKey_shape:
  "localDateFromDateKey z k = InvalidDate \<or>
   (\<exists>n. localDateFromDateKey z k = TimeValue (midnight z n))"
  unfolding localDateFromDateKey_def Let_def by (rule newDate_shape)

lemma keptBy_purgedAt:
  assumes "regularZone z"
  shows "keptBy z (TimeValue (midnight z cutoff)) c = (\<not> purgedAt z cutoff c)"
  using localDateFromDateKey_shape[of z "dateKey c"]
  by (auto simp: keptBy_def purgedAt_def dateGe_def regular_day[OF assms]
      regular_le_iff[OF assms])

lemma number_examples:
  "Number ''2024'' = Fin 2024" "Number ''2023'' = Fin 2023" "Number ''01'' = Fin 1"
  "Number ''10'' = Fin 10" "Number ''03'' = Fin 3" "Number ''04'' = Fin 4" "Number ''05'' = Fin 5"
  "Number ''25'' = Fin 25" "Number ''26'' = Fin 26" "Number ''28'' = Fin 28"
  "Number ''29'' = Fin 29" "Number ''50'' = Fin 50"
  "Number '''' = Fin 0" "Number ''xx'' = NaN" "Number ''someday'' = NaN"
  by (simp_all add: Number_def trim_def isWhiteSpace_def parseNonDecimal_def parseDecimal_def
      parseUnsignedDecimal_def isDigit_def digitsValue_def digitValue_def parseDigits_def)

lemmas newDate_defs = newDate_def makeDay_def dayFromYear_def daysBeforeMonth_def
  inLeapYear_def startOfDay_def midnight_def Let_def

lemmas parseKey_defs = localDateFromDateKey_def Let_def nthOpt_def nullish_def toNumber_def
  number_examples

lemma parsed_examples:
  "localDateFromDateKey z ''2024-01-01'' = startOfDay z 19723"
  "localDateFromDateKey z ''2023-10-03'' = startOfDay z 19633"
  "localDateFromDateKey z ''2023-10-04'' = startOfDay z 19634"
  "localDateFromDateKey z ''2024-01-28'' = startOfDay z 19750"
  "localDateFromDateKey z ''2024-01-29'' = startOfDay z 19751"
  "localDateFromDateKey z ''2024-04-25'' = startOfDay z 19838"
  "localDateFromDateKey z ''2024-04-26'' = startOfDay z 19839"
  "localDateFromDateKey z ''someday'' = InvalidDate"
  "localDateFromDateKey z ''2024--05'' = startOfDay z 19696"
  "localDateFromDateKey z ''2024-xx-05'' = InvalidDate"
  "localDateFromDateKey z ''2024'' = startOfDay z 19723"
  "localDateFromDateKey z ''50-01-01'' = startOfDay z (- 7305)"
  by (simp_all add: parseKey_defs newDate_defs timeClip_def)

lemmas zone_defs = startOfDay_def midnight_def makeDate_def msPerDay_def timeClip_def
  localDay_def dayOf_def timeWithinDay_def

lemma civil_19696:
  "yearFromDay 19696 = 2023" "monthFromDay 19696 = 11" "dateFromDay 19696 = 5"
  by (simp_all add: calendar_defs)

lemma civil_19839:
  "yearFromDay 19839 = 2024" "monthFromDay 19839 = 3" "dateFromDay 19839 = 26"
  by (simp_all add: calendar_defs)

lemma civil_year_50:
  "yearFromDay (- 701265) = 50" "monthFromDay (- 701265) = 0" "dateFromDay (- 701265) = 1"
  by (simp_all add: calendar_defs)

lemma dateKey_19696:
  assumes "localDay z t = 19696"
  shows "getLocalDateKey z (TimeValue t) = ''2023-12-05''"
  using assms
  by (simp add: getLocalDateKey_def getFullYear_def getMonth_def getDate_def localDay_def
      civil_19696 numToString_def showInt_def showNat.simps digitChar_def padStart_def)

lemma dateKey_19839:
  assumes "localDay z t = 19839"
  shows "getLocalDateKey z (TimeValue t) = ''2024-04-26''"
  using assms
  by (simp add: getLocalDateKey_def getFullYear_def getMonth_def getDate_def localDay_def
      civil_19839 numToString_def showInt_def showNat.simps digitChar_def padStart_def)

lemma dateKey_year_50:
  assumes "localDay z t = - 701265"
  shows "getLocalDateKey z (TimeValue t) = ''50-01-01''"
  using assms
  by (simp add: getLocalDateKey_def getFullYear_def getMonth_def getDate_def localDay_def
      civil_year_50 numToString_def showInt_def showNat.simps digitChar_def padStart_def)

lemma filter_not_all: "(filter (\<lambda>c. \<not> P c) xs = xs) = (filter P xs = [])"
  by (simp add: filter_id_conv filter_empty_conv)

lemma purge_with_cutoff:
  assumes "regularZone z"
    and "purgeCutoff z now (nullish d (Fin 90)) = TimeValue (midnight z cutoff)"
  shows "loadAllCheckins (snd (purgeCheckinsOlderThan z now d st)) =
           filter (\<lambda>c. \<not> purgedAt z cutoff c) (loadAllCheckins st)"
    and "fst (purgeCheckinsOlderThan z now d st) =
           length (filter (purgedAt z cutoff) (loadAllCheckins st))"
    and "filter (purgedAt z cutoff) (loadAllCheckins st) = [] \<Longrightarrow>
           purgeCheckinsOlderThan z now d st = (0, st)"
proof -
  have k: "keptBy z (TimeValue (midnight z cutoff)) = (\<lambda>c. \<not> purgedAt z cutoff c)"
    by (simp add: fun_eq_iff keptBy_purgedAt[OF assms(1)])
  show "loadAllCheckins (snd (purgeCheckinsOlderThan z now d st)) =
           filter (\<lambda>c. \<not> purgedAt z cutoff c) (loadAllCheckins st)"
    by (simp add: purge_load assms(2) k)
  show "fst (purgeCheckinsOlderThan z now d st) =
           length (filter (purgedAt z cutoff) (loadAllCheckins st))"
    by (simp add: purge_count assms(2) k)
  show "purgeCheckinsOlderThan z now d st = (0, st)"
    if "filter (purgedAt z cutoff) (loadAllCheckins st) = []"
    using that by (intro purge_no_write) (simp add: assms(2) k filter_not_all)
qed

lemma load_autumnStore:
  "loadAllCheckins autumnStore =
     [checkin ''2023-10-03'' 4 4 4 1696320000000, checkin ''2023-10-04'' 5 5 5 1696406400000,
      checkin ''2024-01-01'' 3 5 5 1704067200000, checkin ''someday'' 1 1 1 0]"
  by (simp add: autumnStore_def load_storeOf sortByDateKey_def)

lemma load_winterStore:
  "loadAllCheckins winterStore =
     [checkin ''2024-01-28'' 6 6 6 1706436000000, checkin ''2024-01-29'' 7 7 7 1706522400000]"
  by (simp add: winterStore_def load_storeOf sortByDateKey_def)

lemma load_aprilStore:
  "loadAllCheckins aprilStore =
     [checkin ''2024-04-25'' 4 4 4 1714068000000, checkin ''2024-04-26'' 5 5 5 1714122000000]"
  by (simp add: aprilStore_def load_storeOf sortByDateKey_def)

lemma localDay_cairo_examples:
  "localDay cairoZone 1714122000000 = 19839" "localDay cairoZone 1714208400000 = 19840"
  by (simp_all add: localDay_def toLocal_cairo dayOf_def msPerDay_def)

lemma midnight_exists_cairo: "midnightExists cairoZone 19840"
  by (simp add: midnightExists_def toLocal_midnight_cairo makeDate_def msPerDay_def)

text \<open>
  The cutoff of 90 days on 26 April 2024 at noon in the zone of Cairo. The midnight of
  that day is skipped, \<open>new Date(y, m, d)\<close> stands at 01:00, and \<open>setDate\<close> keeps
  that time: the cutoff is 28 January 2024 at 01:00, an hour after the start of its day.
\<close>

lemma purgeCutoff_cairo_skipped:
  "purgeCutoff cairoZone 1714122000000 (Fin 90) = TimeValue 1706396400000"
proof -
  have n: "newDate cairoZone (Fin 2024) (Fin 3) (Fin 26) = TimeValue 1714082400000"
    by (simp add: newDate_defs timeClip_def makeDate_def msPerDay_def toUTC_cairo)
  have l: "toLocal cairoZone 1714082400000 = 1714093200000"
    by (simp add: toLocal_cairo)
  have d: "dayOf 1714093200000 = 19839" "timeWithinDay 1714093200000 = 3600000"
    by (simp_all add: dayOf_def timeWithinDay_def msPerDay_def)
  have m: "makeDay (Fin 2024) (Fin 3) (Fin (- 63)) = Some 19750"
    by (simp add: makeDay_def dayFromYear_def daysBeforeMonth_def inLeapYear_def Let_def)
  have s: "setDate cairoZone (TimeValue 1714082400000) (Fin (- 63)) = TimeValue 1706396400000"
    by (simp add: setDate_def l d civil_19839 m makeDate_def msPerDay_def toUTC_cairo
        timeClip_def)
  show ?thesis
    by (simp add: purgeCutoff_def Let_def getFullYear_def getMonth_def getDate_def
        localDay_cairo_examples[unfolded localDay_def] civil_19839 n l d s)
qed

text \<open>
  C1, as amended. Let the zone be regular, let the local midnight of today exist (no
  daylight-saving transition skips it), let today be a day from 1 January 1970 on, and
  \<open>days\<close> an integer of at most 100,000,000. \<open>purgeCheckinsOlderThan days\<close> removes
  exactly the records whose date key parses to a day strictly before the cutoff, today
  minus \<open>max 1 days - 1\<close> days, or to no valid date, and keeps all others in their
  order. It returns the number of the records it removed. When it removes none it returns
  0 and leaves the store as it is, writes included; so a second run right after the first
  returns 0 and writes nothing. Without an argument it runs with 90 days.
\<close>

theorem purge_removes_before_cutoff:
  assumes "regularZone z" and "midnightExists z (localDay z now)"
    and "0 \<le> localDay z now" and "now \<le> 8640000000000000" and "days \<le> 100000000"
  shows "loadAllCheckins (snd (purgeCheckinsOlderThan z now (Some (Fin (of_int days))) st)) =
           filter (\<lambda>c. \<not> purgedAt z (localDay z now - (max 1 days - 1)) c) (loadAllCheckins st) \<and>
         fst (purgeCheckinsOlderThan z now (Some (Fin (of_int days))) st) =
           length (filter (purgedAt z (localDay z now - (max 1 days - 1))) (loadAllCheckins st)) \<and>
         (filter (purgedAt z (localDay z now - (max 1 days - 1))) (loadAllCheckins st) = [] \<longrightarrow>
            purgeCheckinsOlderThan z now (Some (Fin (of_int days))) st = (0, st)) \<and>
         purgeCheckinsOlderThan z now (Some (Fin (of_int days)))
             (snd (purgeCheckinsOlderThan z now (Some (Fin (of_int days))) st)) =
           (0, snd (purgeCheckinsOlderThan z now (Some (Fin (of_int days))) st)) \<and>
         purgeCheckinsOlderThan z now None st = purgeCheckinsOlderThan z now (Some (Fin 90)) st"
proof -
  have c: "purgeCutoff z now (nullish (Some (Fin (of_int days))) (Fin 90)) =
      TimeValue (midnight z (localDay z now - (max 1 days - 1)))"
    using purgeCutoff_integer[OF assms] by (simp add: nullish_def)
  have d: "purgeCheckinsOlderThan z now None st = purgeCheckinsOlderThan z now (Some (Fin 90)) st"
    by (simp add: purgeCheckinsOlderThan_def nullish_def)
  from purge_with_cutoff[OF assms(1) c, of st]
    purge_twice[of z now "Some (Fin (of_int days))" st] d
  show ?thesis by blast
qed

theorem purge_removes_before_cutoff_witness:
  "regularZone utcZone \<and> midnightExists utcZone (localDay utcZone 1704100000000) \<and>
   0 \<le> localDay utcZone 1704100000000 \<and> (1704100000000 :: int) \<le> 8640000000000000 \<and>
   (90 :: int) \<le> 100000000 \<and>
   map dateKey (loadAllCheckins
       (snd (purgeCheckinsOlderThan utcZone 1704100000000 (Some (Fin 90)) autumnStore))) =
     [''2023-10-04'', ''2024-01-01''] \<and>
   fst (purgeCheckinsOlderThan utcZone 1704100000000 (Some (Fin 90)) autumnStore) = 2 \<and>
   purgeCheckinsOlderThan utcZone 1704100000000 (Some (Fin 90))
       (snd (purgeCheckinsOlderThan utcZone 1704100000000 (Some (Fin 90)) autumnStore)) =
     (0, snd (purgeCheckinsOlderThan utcZone 1704100000000 (Some (Fin 90)) autumnStore)) \<and>
   regularZone cairoZone \<and> midnightExists cairoZone (localDay cairoZone 1714208400000) \<and>
   0 \<le> localDay cairoZone 1714208400000 \<and> (1714208400000 :: int) \<le> 8640000000000000 \<and>
   map dateKey (loadAllCheckins
       (snd (purgeCheckinsOlderThan cairoZone 1714208400000 (Some (Fin 90)) winterStore))) =
     [''2024-01-29''] \<and>
   fst (purgeCheckinsOlderThan cairoZone 1714208400000 (Some (Fin 90)) winterStore) = 1"
proof -
  have a: "midnightExists utcZone (localDay utcZone 1704100000000)"
    "0 \<le> localDay utcZone 1704100000000" "(1704100000000 :: int) \<le> 8640000000000000"
    "(90 :: int) \<le> 100000000"
    by (simp_all add: midnight_exists_utc localDay_utc_examples)
  have b: "midnightExists cairoZone (localDay cairoZone 1714208400000)"
    "0 \<le> localDay cairoZone 1714208400000" "(1714208400000 :: int) \<le> 8640000000000000"
    by (simp_all add: midnight_exists_cairo localDay_cairo_examples)
  have p: "purgedAt utcZone 19634 (checkin ''2023-10-03'' 4 4 4 1696320000000)"
    "\<not> purgedAt utcZone 19634 (checkin ''2023-10-04'' 5 5 5 1696406400000)"
    "\<not> purgedAt utcZone 19634 (checkin ''2024-01-01'' 3 5 5 1704067200000)"
    "purgedAt utcZone 19634 (checkin ''someday'' 1 1 1 0)"
    by (simp_all add: purgedAt_def parsed_examples zone_defs)
  have q: "purgedAt cairoZone 19751 (checkin ''2024-01-28'' 6 6 6 1706436000000)"
    "\<not> purgedAt cairoZone 19751 (checkin ''2024-01-29'' 7 7 7 1706522400000)"
    by (simp_all add: purgedAt_def parsed_examples zone_defs toLocal_cairo toUTC_cairo)
  from purge_removes_before_cutoff[OF regular_utc a, of autumnStore]
    purge_removes_before_cutoff[OF regular_cairo b a(4), of winterStore]
  show ?thesis
    using a b regular_utc regular_cairo
    by (simp add: load_autumnStore load_winterStore p q localDay_utc_examples
        localDay_cairo_examples)
qed

text \<open>
  Against C1 as it is stated. For \<open>days = 0\<close> the cutoff of the statement, today minus
  \<open>days - 1\<close> days, is tomorrow, and a record of today lies strictly before it; the
  purge keeps the record, returns 0 and writes nothing. A record whose date key is no
  date lies before no cutoff, and the purge removes it. For 200,000,000 days the cutoff
  is no valid date. And on 26 April 2024 in the zone of Cairo, a day whose midnight is
  skipped, the purge of 90 days removes the record of 28 January 2024, which is the day
  of the cutoff, today minus 89 days, and not before it.
\<close>

theorem purge_days_zero_keeps_today:
  "localDay utcZone 1704100000000 = 19723 \<and>
   localDateFromDateKey utcZone ''2024-01-01'' = TimeValue 1704067200000 \<and>
   localDay utcZone 1704067200000 = 19723 \<and>
   (19723 :: int) < 19723 - (0 - 1) \<and>
   purgeCheckinsOlderThan utcZone 1704100000000 (Some (Fin 0)) jan1Store = (0, jan1Store) \<and>
   localDateFromDateKey utcZone ''someday'' = InvalidDate \<and>
   ''someday'' \<in> set (map dateKey (loadAllCheckins autumnStore)) \<and>
   ''someday'' \<notin> set (map dateKey (loadAllCheckins
      (snd (purgeCheckinsOlderThan utcZone 1704100000000 (Some (Fin 90)) autumnStore)))) \<and>
   purgeCutoff utcZone 1704100000000 (Fin 200000000) = InvalidDate \<and>
   localDay cairoZone 1714122000000 = 19839 \<and>
   \<not> midnightExists cairoZone 19839 \<and>
   localDateFromDateKey cairoZone ''2024-01-28'' = TimeValue 1706392800000 \<and>
   localDay cairoZone 1706392800000 = 19750 \<and>
   \<not> (19750 :: int) < 19839 - (90 - 1) \<and>
   purgeCutoff cairoZone 1714122000000 (Fin 90) = TimeValue 1706396400000 \<and>
   fst (purgeCheckinsOlderThan cairoZone 1714122000000 (Some (Fin 90)) winterStore) = 1 \<and>
   map dateKey (loadAllCheckins
      (snd (purgeCheckinsOlderThan cairoZone 1714122000000 (Some (Fin 90)) winterStore))) =
     [''2024-01-29'']"
proof -
  have a: "0 \<le> localDay utcZone 1704100000000" "(1704100000000 :: int) \<le> 8640000000000000"
    by (simp_all add: localDay_utc_examples)
  have l: "loadAllCheckins jan1Store = [checkin ''2024-01-01'' 3 5 5 1704067200000]"
    by (simp add: jan1Store_def load_storeOf sortByDateKey_def)
  have c: "purgeCutoff utcZone 1704100000000 (nullish (Some (Fin 0)) (Fin 90)) =
      TimeValue (midnight utcZone 19723)"
    using purgeCutoff_at_most_one[OF regular_utc a, of "Fin 0"]
    by (simp add: nullish_def localDay_utc_examples)
  have "filter (purgedAt utcZone 19723) (loadAllCheckins jan1Store) = []"
    by (simp add: l purgedAt_def parsed_examples zone_defs)
  then have zero: "purgeCheckinsOlderThan utcZone 1704100000000 (Some (Fin 0)) jan1Store =
      (0, jan1Store)"
    by (rule purge_with_cutoff(3)[OF regular_utc c])
  have c90: "purgeCutoff utcZone 1704100000000 (nullish (Some (Fin 90)) (Fin 90)) =
      TimeValue (midnight utcZone 19634)"
    using purgeCutoff_integer[OF regular_utc midnight_exists_utc a, of 90]
    by (simp add: nullish_def localDay_utc_examples)
  have p: "purgedAt utcZone 19634 (checkin ''2023-10-03'' 4 4 4 1696320000000)"
    "\<not> purgedAt utcZone 19634 (checkin ''2023-10-04'' 5 5 5 1696406400000)"
    "\<not> purgedAt utcZone 19634 (checkin ''2024-01-01'' 3 5 5 1704067200000)"
    "purgedAt utcZone 19634 (checkin ''someday'' 1 1 1 0)"
    by (simp_all add: purgedAt_def parsed_examples zone_defs)
  have gone: "''someday'' \<notin> set (map dateKey (loadAllCheckins
      (snd (purgeCheckinsOlderThan utcZone 1704100000000 (Some (Fin 90)) autumnStore))))"
    by (simp add: purge_with_cutoff(1)[OF regular_utc c90] load_autumnStore p)
  have n: "newDate utcZone (Fin 2024) (Fin 0) (Fin 1) = TimeValue 1704067200000"
    by (simp add: newDate_defs timeClip_def makeDate_def msPerDay_def)
  have d: "dayOf 1704100000000 = 19723" "dayOf 1704067200000 = 19723"
    "timeWithinDay 1704067200000 = 0"
    by (simp_all add: dayOf_def timeWithinDay_def msPerDay_def)
  have m: "makeDay (Fin 2024) (Fin 0) (Fin (- 199999998)) = Some (- 199980276)"
    by (simp add: makeDay_def dayFromYear_def daysBeforeMonth_def inLeapYear_def Let_def)
  have s: "setDate utcZone (TimeValue 1704067200000) (Fin (- 199999998)) = InvalidDate"
    by (simp add: setDate_def d civil_19723 m makeDate_def msPerDay_def timeClip_def)
  have far: "purgeCutoff utcZone 1704100000000 (Fin 200000000) = InvalidDate"
    by (simp add: purgeCutoff_def Let_def getFullYear_def getMonth_def getDate_def d
        civil_19723 n s)
  have k: "\<not> keptBy cairoZone (TimeValue 1706396400000) (checkin ''2024-01-28'' 6 6 6 1706436000000)"
    "keptBy cairoZone (TimeValue 1706396400000) (checkin ''2024-01-29'' 7 7 7 1706522400000)"
    by (simp_all add: keptBy_def dateGe_def parsed_examples zone_defs toUTC_cairo)
  have cc: "purgeCutoff cairoZone 1714122000000 (nullish (Some (Fin 90)) (Fin 90)) =
      TimeValue 1706396400000"
    by (simp add: nullish_def purgeCutoff_cairo_skipped)
  have cairo: "fst (purgeCheckinsOlderThan cairoZone 1714122000000 (Some (Fin 90)) winterStore) = 1"
    "map dateKey (loadAllCheckins
      (snd (purgeCheckinsOlderThan cairoZone 1714122000000 (Some (Fin 90)) winterStore))) =
     [''2024-01-29'']"
    by (simp_all add: purge_count purge_load cc load_winterStore k)
  have ex: "localDateFromDateKey utcZone ''2024-01-01'' = TimeValue 1704067200000"
    "localDateFromDateKey utcZone ''someday'' = InvalidDate"
    "localDateFromDateKey cairoZone ''2024-01-28'' = TimeValue 1706392800000"
    "localDay cairoZone 1706392800000 = 19750"
    by (simp_all add: parsed_examples zone_defs toUTC_cairo toLocal_cairo)
  from zero gone far cairo ex show ?thesis
    by (simp add: load_autumnStore localDay_utc_examples localDay_cairo_examples
        midnight_skipped_cairo purgeCutoff_cairo_skipped)
qed

text \<open>
  C10. Let the zone be regular and today a day from 1 January 1970 on. For every
  \<open>days\<close> of at most 1, negative ones, zero and minus infinity included, the cutoff is
  the start of today, also on a day whose midnight is skipped. It is not in the future:
  it is not after now. The purge removes every record whose date key parses to a day
  before today (or to no valid date) and keeps the others, among them the record with the
  date key of today.
\<close>

theorem purge_clamps_days:
  assumes "regularZone z" and "0 \<le> localDay z now" and "now \<le> 8640000000000000"
    and "jsGe (Fin 1) days"
  shows "purgeCutoff z now days = TimeValue (midnight z (localDay z now)) \<and>
         dateGe (TimeValue now) (purgeCutoff z now days) \<and>
         loadAllCheckins (snd (purgeCheckinsOlderThan z now (Some days) st)) =
           filter (\<lambda>c. \<not> purgedAt z (localDay z now) c) (loadAllCheckins st) \<and>
         (\<forall>c \<in> set (loadAllCheckins st).
            (purgedAt z (localDay z now) c \<longrightarrow>
               c \<notin> set (loadAllCheckins (snd (purgeCheckinsOlderThan z now (Some days) st)))) \<and>
            (dateKey c = getLocalDateKey z (TimeValue now) \<longrightarrow>
               c \<in> set (loadAllCheckins (snd (purgeCheckinsOlderThan z now (Some days) st)))))"
proof -
  let ?n = "localDay z now"
  have c: "purgeCutoff z now days = TimeValue (midnight z ?n)"
    using assms by (rule purgeCutoff_at_most_one)
  then have c': "purgeCutoff z now (nullish (Some days) (Fin 90)) = TimeValue (midnight z ?n)"
    by (simp add: nullish_def)
  have s: "startOfDay z ?n = TimeValue (midnight z ?n)"
    using assms(1-3) by (rule startOfDay_today)
  have b: "midnight z ?n \<le> now"
    using assms(1) by (rule regular_start)
  have l: "loadAllCheckins (snd (purgeCheckinsOlderThan z now (Some days) st)) =
           filter (\<lambda>c. \<not> purgedAt z ?n c) (loadAllCheckins st)"
    by (rule purge_with_cutoff(1)[OF assms(1) c'])
  have "1970 \<le> yearFromDay ?n"
    using assms(2) by (rule yearFromDay_epoch)
  then have "100 \<le> yearFromDay ?n" by simp
  then have r: "localDateFromDateKey z (getLocalDateKey z (TimeValue now)) = startOfDay z ?n"
    by (rule dateKey_roundtrip)
  have t: "\<not> purgedAt z ?n x" if "dateKey x = getLocalDateKey z (TimeValue now)" for x
    using that by (simp add: purgedAt_def r s regular_day[OF assms(1)])
  show ?thesis
    using t b by (simp add: c l s dateGe_def)
qed

theorem purge_clamps_days_witness:
  "regularZone utcZone \<and> 0 \<le> localDay utcZone 1704100000000 \<and>
   (1704100000000 :: int) \<le> 8640000000000000 \<and> jsGe (Fin 1) (Fin (- 5)) \<and>
   purgeCutoff utcZone 1704100000000 (Fin (- 5)) = TimeValue 1704067200000 \<and>
   map dateKey (loadAllCheckins
       (snd (purgeCheckinsOlderThan utcZone 1704100000000 (Some (Fin (- 5))) autumnStore))) =
     [''2024-01-01''] \<and>
   regularZone cairoZone \<and> 0 \<le> localDay cairoZone 1714122000000 \<and>
   (1714122000000 :: int) \<le> 8640000000000000 \<and> jsGe (Fin 1) (Fin 0) \<and>
   \<not> midnightExists cairoZone (localDay cairoZone 1714122000000) \<and>
   purgeCutoff cairoZone 1714122000000 (Fin 0) = TimeValue 1714082400000 \<and>
   getLocalDateKey cairoZone (TimeValue 1714122000000) = ''2024-04-26'' \<and>
   map dateKey (loadAllCheckins
       (snd (purgeCheckinsOlderThan cairoZone 1714122000000 (Some (Fin 0)) aprilStore))) =
     [''2024-04-26'']"
proof -
  have a: "0 \<le> localDay utcZone 1704100000000" "(1704100000000 :: int) \<le> 8640000000000000"
    "jsGe (Fin 1) (Fin (- 5))"
    by (simp_all add: localDay_utc_examples)
  have b: "0 \<le> localDay cairoZone 1714122000000" "(1714122000000 :: int) \<le> 8640000000000000"
    "jsGe (Fin 1) (Fin 0)"
    by (simp_all add: localDay_cairo_examples)
  have p: "purgedAt utcZone 19723 (checkin ''2023-10-03'' 4 4 4 1696320000000)"
    "purgedAt utcZone 19723 (checkin ''2023-10-04'' 5 5 5 1696406400000)"
    "\<not> purgedAt utcZone 19723 (checkin ''2024-01-01'' 3 5 5 1704067200000)"
    "purgedAt utcZone 19723 (checkin ''someday'' 1 1 1 0)"
    by (simp_all add: purgedAt_def parsed_examples zone_defs)
  have q: "purgedAt cairoZone 19839 (checkin ''2024-04-25'' 4 4 4 1714068000000)"
    "\<not> purgedAt cairoZone 19839 (checkin ''2024-04-26'' 5 5 5 1714122000000)"
    by (simp_all add: purgedAt_def parsed_examples zone_defs toLocal_cairo toUTC_cairo)
  have m: "midnight utcZone 19723 = 1704067200000" "midnight cairoZone 19839 = 1714082400000"
    by (simp_all add: midnight_def makeDate_def msPerDay_def toUTC_cairo)
  from purge_clamps_days[OF regular_utc a, of autumnStore]
    purge_clamps_days[OF regular_cairo b, of aprilStore]
  show ?thesis
    using a b regular_utc regular_cairo
    by (simp add: load_autumnStore load_aprilStore p q m localDay_utc_examples
        localDay_cairo_examples midnight_skipped_cairo
        dateKey_19839[OF localDay_cairo_examples(1)])
qed

text \<open>
  C6, as amended. \<open>localDateFromDateKey\<close> splits the key at the hyphens; there is
  always a first segment. A month that is missing is month 1, which is index 0, and a day
  that is missing is day 1. A segment that is there is converted by \<open>Number\<close> and
  used as it is, the month less 1; it is not replaced by a default. The key that
  \<open>getLocalDateKey\<close> writes for a date of the year 100 or of a later year parses back
  to the start of the day of that date.
\<close>

theorem localDateFromDateKey_segments:
  "splitOn CHR ''-'' k \<noteq> [] \<and>
   (splitOn CHR ''-'' k = [y] \<longrightarrow>
      localDateFromDateKey z k = newDate z (Number y) (Fin 0) (Fin 1)) \<and>
   (splitOn CHR ''-'' k = [y, m] \<longrightarrow>
      localDateFromDateKey z k = newDate z (Number y) (jsSub (Number m) (Fin 1)) (Fin 1)) \<and>
   (splitOn CHR ''-'' k = y # m # d # rest \<longrightarrow>
      localDateFromDateKey z k = newDate z (Number y) (jsSub (Number m) (Fin 1)) (Number d)) \<and>
   (100 \<le> yearFromDay (localDay z t) \<longrightarrow>
      localDateFromDateKey z (getLocalDateKey z (TimeValue t)) = startOfDay z (localDay z t))"
  using dateKey_roundtrip[of z t]
  by (simp add: splitOn_nonempty localDateFromDateKey_def Let_def nthOpt_def nullish_def
      toNumber_def)

theorem localDateFromDateKey_segments_witness:
  "splitOn CHR ''-'' ''2024'' = [''2024''] \<and>
   localDateFromDateKey utcZone ''2024'' = TimeValue 1704067200000 \<and>
   splitOn CHR ''-'' ''2024-01-01'' = ''2024'' # ''01'' # ''01'' # [] \<and>
   localDateFromDateKey utcZone ''2024-01-01'' = TimeValue 1704067200000 \<and>
   (100 :: int) \<le> yearFromDay (localDay utcZone 1704100000000) \<and>
   getLocalDateKey utcZone (TimeValue 1704100000000) = ''2024-01-01'' \<and>
   localDateFromDateKey utcZone (getLocalDateKey utcZone (TimeValue 1704100000000)) =
     TimeValue 1704067200000"
proof -
  have a: "splitOn CHR ''-'' ''2024'' = [''2024'']"
    by simp
  have b: "splitOn CHR ''-'' ''2024-01-01'' = ''2024'' # ''01'' # ''01'' # []"
    by simp
  have e: "newDate utcZone (Fin 2024) (Fin 0) (Fin 1) = TimeValue 1704067200000"
    by (simp add: newDate_defs timeClip_def makeDate_def msPerDay_def)
  have s: "startOfDay utcZone 19723 = TimeValue 1704067200000"
    by (simp add: zone_defs)
  have y: "(100 :: int) \<le> yearFromDay (localDay utcZone 1704100000000)"
    by (simp add: localDay_utc_examples civil_19723)
  note t1 = localDateFromDateKey_segments[of "''2024''" "''2024''" utcZone _ _ _ 1704100000000]
  note t2 = localDateFromDateKey_segments[of "''2024-01-01''" "''2024''" utcZone "''01''" "''01''" "[]"
      1704100000000]
  from t1 t2 a b y show ?thesis
    by (simp add: number_examples e s localDay_utc_examples
        dateKey_19723[OF localDay_utc_examples(2)])
qed

text \<open>
  Against C6 as it is stated, for a malformed segment: an empty month converts to 0, not
  to the default 1, so that the key \<open>2024--05\<close> is 5 December 2023, rolled over into
  the year before; a month that is no number gives an invalid date.
\<close>

theorem localDateFromDateKey_empty_segment_rolls_over:
  "localDateFromDateKey utcZone ''2024--05'' = TimeValue 1701734400000 \<and>
   getLocalDateKey utcZone (TimeValue 1701734400000) = ''2023-12-05'' \<and>
   localDateFromDateKey utcZone ''2024-xx-05'' = InvalidDate"
proof -
  have "localDay utcZone 1701734400000 = 19696"
    by (simp add: localDay_def dayOf_def msPerDay_def)
  then show ?thesis
    by (simp add: parsed_examples dateKey_19696 zone_defs)
qed

text \<open>
  The years before 100. \<open>String\<close> writes the year 50 with two digits, and
  \<open>new Date(y, m, d)\<close> takes a year from 0 to 99 as a year of the twentieth
  century: the key of 1 January 50 parses to 1 January 1950.
\<close>

lemma dateKey_of_year_50:
  "getLocalDateKey utcZone (TimeValue (- 60589296000000)) = ''50-01-01'' \<and>
   localDateFromDateKey utcZone ''50-01-01'' = TimeValue (- 631152000000) \<and>
   getLocalDateKey utcZone (TimeValue (- 631152000000)) = ''1950-01-01''"
proof -
  have d: "localDay utcZone (- 60589296000000) = - 701265" "localDay utcZone (- 631152000000) = - 7305"
    by (simp_all add: localDay_def dayOf_def msPerDay_def)
  have c: "yearFromDay (- 7305) = 1950" "monthFromDay (- 7305) = 0" "dateFromDay (- 7305) = 1"
    by (simp_all add: calendar_defs)
  have "getLocalDateKey utcZone (TimeValue (- 631152000000)) = ''1950-01-01''"
    using d(2)
    by (simp add: getLocalDateKey_def getFullYear_def getMonth_def getDate_def localDay_def
        c numToString_def showInt_def showNat.simps digitChar_def padStart_def)
  then show ?thesis
    by (simp add: dateKey_year_50[OF d(1)] parsed_examples zone_defs)
qed

end
